theory Spec2Isabelle
  imports Main "HOL-Library.Char_ord" "HOL-Library.List_Lexorder"
begin

section \<open>Go values\<close>

text \<open>
  A Go \<open>string\<close> is a sequence of bytes: it is modelled as \<open>string\<close> (a list of 8-bit
  \<open>char\<close>), and \<open>len\<close> is \<open>length\<close>. Go's \<open>int\<close> is a 64-bit signed integer on the
  platforms the proxy is built for: it is modelled as \<open>int\<close> with the wrap-around of
  \<open>+\<close> written out (\<open>int_wrap\<close>), and \<open>%\<close> is the remainder of the division that truncates
  towards zero (\<open>go_rem\<close>), which differs from HOL's \<open>mod\<close> on negative numbers.
\<close>

definition max_int :: int where
  "max_int = 2 ^ 63 - 1"

definition int_wrap :: "int \<Rightarrow> int" where
  "int_wrap x = (x + 2 ^ 63) mod 2 ^ 64 - 2 ^ 63"

definition go_rem :: "int \<Rightarrow> int \<Rightarrow> int" where
  "go_rem a b = sgn a * (\<bar>a\<bar> mod \<bar>b\<bar>)"

text \<open>An index expression \<open>keys[i]\<close> panics when \<open>i\<close> is out of range.\<close>

datatype panic = IndexOutOfRange int nat

definition index :: "'a list \<Rightarrow> int \<Rightarrow> panic + 'a" where
  "index xs i =
     (if 0 \<le> i \<and> i < int (length xs) then Inr (xs ! nat i)
      else Inl (IndexOutOfRange i (length xs)))"

section \<open>Masking a credential for the log (handler/handler.go, api/index.go)\<close>

text \<open>
  \<open>maskAPIKey\<close> is declared twice with the same body, in package \<open>handler\<close> and in
  package \<open>api\<close>. The slices \<open>apiKey[0:4]\<close> and \<open>apiKey[len(apiKey)-4:]\<close> are only reached
  when \<open>len(apiKey) \<ge> 8\<close>, so neither can panic.
\<close>

definition maskAPIKey :: "string \<Rightarrow> string" where
  "maskAPIKey apiKey =
     (if apiKey = '''' then ''<empty>''
      else if length apiKey < 8 then ''<too_short>''
      else take 4 apiKey @ ''****'' @ drop (length apiKey - 4) apiKey)"

definition api_maskAPIKey :: "string \<Rightarrow> string" where
  "api_maskAPIKey apiKey =
     (if apiKey = '''' then ''<empty>''
      else if length apiKey < 8 then ''<too_short>''
      else take 4 apiKey @ ''****'' @ drop (length apiKey - 4) apiKey)"

section \<open>The fallback credential list (util/redis: getAPIKeysFromEnv)\<close>

text \<open>\<open>strings.Split(s, sep)\<close> for a one-byte separator: \<open>n\<close> separators give \<open>n + 1\<close> parts.\<close>

fun Split :: "char \<Rightarrow> string \<Rightarrow> string list" where
  "Split c [] = [[]]"
| "Split c (x # xs) =
     (if x = c then [] # Split c xs
      else (case Split c xs of [] \<Rightarrow> [[x]] | p # ps \<Rightarrow> (x # p) # ps))"

text \<open>
  \<open>strings.TrimSpace\<close> removes leading and trailing white space as Unicode defines it
  (\<open>unicode.IsSpace\<close>): the six ASCII characters, U+0085, U+00A0, U+1680, U+2000 to U+200A,
  U+2028, U+2029, U+202F, U+205F and U+3000, each in its UTF-8 encoding.
\<close>

definition ascii_space :: "char \<Rightarrow> bool" where
  "ascii_space c \<longleftrightarrow> c \<in> {CHR 0x09, CHR 0x0A, CHR 0x0B, CHR 0x0C, CHR 0x0D, CHR '' ''}"

definition space3 :: "char \<Rightarrow> char \<Rightarrow> char \<Rightarrow> bool" where
  "space3 a b c \<longleftrightarrow>
     (a = CHR 0xE1 \<and> b = CHR 0x9A \<and> c = CHR 0x80) \<or>
     (a = CHR 0xE2 \<and> b = CHR 0x80 \<and>
        (of_char c \<in> {0x80 .. (0x8A::int)} \<or> c \<in> {CHR 0xA8, CHR 0xA9, CHR 0xAF})) \<or>
     (a = CHR 0xE2 \<and> b = CHR 0x81 \<and> c = CHR 0x9F) \<or>
     (a = CHR 0xE3 \<and> b = CHR 0x80 \<and> c = CHR 0x80)"

definition space2 :: "char \<Rightarrow> char \<Rightarrow> bool" where
  "space2 a b \<longleftrightarrow> a = CHR 0xC2 \<and> (b = CHR 0x85 \<or> b = CHR 0xA0)"

fun TrimLeftSpace :: "string \<Rightarrow> string" where
  "TrimLeftSpace (a # b # c # s) =
     (if ascii_space a then TrimLeftSpace (b # c # s)
      else if space2 a b then TrimLeftSpace (c # s)
      else if space3 a b c then TrimLeftSpace s
      else a # b # c # s)"
| "TrimLeftSpace [a, b] =
     (if ascii_space a then TrimLeftSpace [b]
      else if space2 a b then []
      else [a, b])"
| "TrimLeftSpace [a] = (if ascii_space a then [] else [a])"
| "TrimLeftSpace [] = []"

text \<open>The same from the end, on the reversed string: the last rune's bytes come first.\<close>

fun TrimLeftSpace_rev :: "string \<Rightarrow> string" where
  "TrimLeftSpace_rev (c # b # a # s) =
     (if ascii_space c then TrimLeftSpace_rev (b # a # s)
      else if space2 b c then TrimLeftSpace_rev (a # s)
      else if space3 a b c then TrimLeftSpace_rev s
      else c # b # a # s)"
| "TrimLeftSpace_rev [c, b] =
     (if ascii_space c then TrimLeftSpace_rev [b]
      else if space2 b c then []
      else [c, b])"
| "TrimLeftSpace_rev [c] = (if ascii_space c then [] else [c])"
| "TrimLeftSpace_rev [] = []"

definition TrimSpace :: "string \<Rightarrow> string" where
  "TrimSpace s = rev (TrimLeftSpace_rev (rev (TrimLeftSpace s)))"

text \<open>
  \<open>splitAndTrim\<close> and \<open>splitAPIKeys\<close>, as written: each drops the empty parts, the second
  one after the first has already done so.
\<close>

definition splitAndTrim :: "string \<Rightarrow> char \<Rightarrow> string list" where
  "splitAndTrim s sep = filter (\<lambda>part. part \<noteq> '''') (map TrimSpace (Split sep s))"

definition splitAPIKeys :: "string \<Rightarrow> string list" where
  "splitAPIKeys keyStr = filter (\<lambda>key. key \<noteq> '''') (splitAndTrim keyStr (CHR '',''))"

text \<open>
  The process environment: the value of \<open>API_KEY\<close>, and \<open>os.ExpandEnv\<close> under this
  environment (the standard library's substitution of \<open>$VAR\<close> and \<open>${VAR}\<close>), which
  \<open>cleanAPIKeyString\<close> applies and which is taken as given.
\<close>

record environ =
  API_KEY :: string
  ExpandEnv :: "string \<Rightarrow> string"

definition cleanAPIKeyString :: "environ \<Rightarrow> string \<Rightarrow> string" where
  "cleanAPIKeyString e keyStr = ExpandEnv e keyStr"

definition getAPIKeysFromEnv :: "environ \<Rightarrow> string list" where
  "getAPIKeysFromEnv e =
     (let keyStr = API_KEY e in
      if keyStr = '''' then []
      else splitAPIKeys (cleanAPIKeyString e keyStr))"

section \<open>UTF-8 (unicode/utf8)\<close>

definition byte_in :: "char \<Rightarrow> int \<Rightarrow> int \<Rightarrow> bool" where
  "byte_in c lo hi \<longleftrightarrow> lo \<le> of_char c \<and> of_char c \<le> hi"

definition utf8_size :: "string \<Rightarrow> nat" where
  "utf8_size s =
     (case s of
        [] \<Rightarrow> 0
      | a # r \<Rightarrow>
          if byte_in a 0x00 0x7F then 1
          else if byte_in a 0xC2 0xDF then
            (case r of b # _ \<Rightarrow> if byte_in b 0x80 0xBF then 2 else 0 | _ \<Rightarrow> 0)
          else if byte_in a 0xE0 0xEF then
            (case r of
               b # c # _ \<Rightarrow>
                 if byte_in b (if a = CHR 0xE0 then 0xA0 else 0x80)
                      (if a = CHR 0xED then 0x9F else 0xBF) \<and> byte_in c 0x80 0xBF
                 then 3 else 0
             | _ \<Rightarrow> 0)
          else if byte_in a 0xF0 0xF4 then
            (case r of
               b # c # d # _ \<Rightarrow>
                 if byte_in b (if a = CHR 0xF0 then 0x90 else 0x80)
                      (if a = CHR 0xF4 then 0x8F else 0xBF) \<and>
                    byte_in c 0x80 0xBF \<and> byte_in d 0x80 0xBF
                 then 4 else 0
             | _ \<Rightarrow> 0)
          else 0)"

definition replacement_char :: string where
  "replacement_char = [CHR 0xEF, CHR 0xBF, CHR 0xBD]"

definition EncodeRune :: "int \<Rightarrow> string" where
  "EncodeRune r =
     (if r \<le> 0x7F then [char_of r]
      else if r \<le> 0x7FF then [char_of (0xC0 + r div 64), char_of (0x80 + r mod 64)]
      else if (0xD800 \<le> r \<and> r \<le> 0xDFFF) \<or> 0x10FFFF < r then replacement_char
      else if r \<le> 0xFFFF then
        [char_of (0xE0 + r div 4096), char_of (0x80 + r div 64 mod 64), char_of (0x80 + r mod 64)]
      else
        [char_of (0xF0 + r div 262144), char_of (0x80 + r div 4096 mod 64),
         char_of (0x80 + r div 64 mod 64), char_of (0x80 + r mod 64)])"

section \<open>JSON\<close>

datatype json =
    JNull
  | JBool bool
  | JNumber string
  | JString string
  | JArray "json list"
  | JObject "(string \<times> json) list"

definition hex_val :: "char \<Rightarrow> int option" where
  "hex_val c =
     (if byte_in c 0x30 0x39 then Some (of_char c - 0x30)
      else if byte_in c 0x61 0x66 then Some (of_char c - 0x61 + 10)
      else if byte_in c 0x41 0x46 then Some (of_char c - 0x41 + 10)
      else None)"

definition getu4 :: "string \<Rightarrow> int option" where
  "getu4 s =
     (case s of
        b # u # h1 # h2 # h3 # h4 # _ \<Rightarrow>
          if b = CHR 0x5C \<and> u = CHR ''u'' then
            (case (hex_val h1, hex_val h2, hex_val h3, hex_val h4) of
               (Some a, Some b, Some c, Some d) \<Rightarrow> Some (((a * 16 + b) * 16 + c) * 16 + d)
             | _ \<Rightarrow> None)
          else None
      | _ \<Rightarrow> None)"

definition utf16_DecodeRune :: "int \<Rightarrow> int option \<Rightarrow> int option" where
  "utf16_DecodeRune r1 r2 =
     (case r2 of
        None \<Rightarrow> None
      | Some r2 \<Rightarrow>
          if 0xD800 \<le> r1 \<and> r1 < 0xDC00 \<and> 0xDC00 \<le> r2 \<and> r2 < 0xE000
          then Some ((r1 - 0xD800) * 1024 + (r2 - 0xDC00) + 0x10000)
          else None)"

definition unescape_char :: "char \<Rightarrow> char" where
  "unescape_char e =
     (if e = CHR ''b'' then CHR 0x08
      else if e = CHR ''f'' then CHR 0x0C
      else if e = CHR ''n'' then CHR 0x0A
      else if e = CHR ''r'' then CHR 0x0D
      else if e = CHR ''t'' then CHR 0x09
      else e)"

function unquote :: "string \<Rightarrow> string" where
  "unquote [] = []"
| "unquote (c # s) =
     (if c = CHR 0x5C then
        (case s of
           [] \<Rightarrow> []
         | e # s' \<Rightarrow>
             if e = CHR ''u'' then
               (case getu4 (c # s) of
                  None \<Rightarrow> []
                | Some rr \<Rightarrow>
                    if 0xD800 \<le> rr \<and> rr < 0xE000 then
                      (case utf16_DecodeRune rr (getu4 (drop 5 s)) of
                         Some dec \<Rightarrow> EncodeRune dec @ unquote (drop 11 s)
                       | None \<Rightarrow> replacement_char @ unquote (drop 5 s))
                    else EncodeRune rr @ unquote (drop 5 s))
             else unescape_char e # unquote s')
      else if byte_in c 0x00 0x7F then c # unquote s
      else
        (let n = utf8_size (c # s) in
         if n = 0 then replacement_char @ unquote s
         else take n (c # s) @ unquote (drop (n - 1) s)))"
  by pat_completeness auto
termination
  by (relation "measure length") auto


subsection \<open>Numbers that float64 cannot hold\<close>

fun digits_val :: "int \<Rightarrow> string \<Rightarrow> int" where
  "digits_val acc [] = acc"
| "digits_val acc (c # cs) = digits_val (acc * 10 + (of_char c - 0x30)) cs"

definition is_digit :: "char \<Rightarrow> bool" where
  "is_digit c \<longleftrightarrow> byte_in c 0x30 0x39"

definition float64_overflow :: "string \<Rightarrow> bool" where
  "float64_overflow num =
     (let s = (if num \<noteq> [] \<and> hd num = CHR ''-'' then tl num else num);
          ip = takeWhile is_digit s;
          r1 = dropWhile is_digit s;
          fp = (if r1 \<noteq> [] \<and> hd r1 = CHR ''.'' then takeWhile is_digit (tl r1) else []);
          r2 = (if r1 \<noteq> [] \<and> hd r1 = CHR ''.'' then dropWhile is_digit (tl r1) else r1);
          ex = (if r2 = [] then [] else tl r2);
          neg = (ex \<noteq> [] \<and> hd ex = CHR ''-'');
          ed = (if ex \<noteq> [] \<and> (hd ex = CHR ''-'' \<or> hd ex = CHR ''+'') then tl ex else ex);
          m = digits_val 0 (ip @ fp);
          e = nat (digits_val 0 ed);
          limit = (2::int) ^ 1024 - 2 ^ 970
      in if neg then limit * 10 ^ (e + length fp) \<le> m
         else if length fp \<le> e then limit \<le> m * 10 ^ (e - length fp)
         else limit * 10 ^ (length fp - e) \<le> m)"

subsection \<open>The scanner (encoding/json, scanner.go) with the value it reads\<close>

datatype frame =
    ArrayValue "json list"
  | ObjectKey "(string \<times> json) list" "string option"
  | ObjectValue "(string \<times> json) list" "string option"

datatype step =
    BeginValueOrEmpty | BeginValue | BeginStringOrEmpty | BeginString
  | EndValue | EndTop
  | InString | InStringEsc | InStringEscU | InStringEscU1 | InStringEscU12 | InStringEscU123
  | Neg | St1 | St0 | Dot | Dot0 | StE | ESign | E0
  | StT | Tr | Tru | StF | Fa | Fal | Fals | StN | Nu | Nul
  | ScanError

record scanner =
  step :: step
  parseState :: "frame list"
  lit :: string
  top :: "json option"
  endTop :: bool
  rangeErr :: bool

definition maxNestingDepth :: nat where
  "maxNestingDepth = 10000"

definition scan_error :: "scanner \<Rightarrow> scanner" where
  "scan_error s = s\<lparr>step := ScanError\<rparr>"

definition isSpace :: "char \<Rightarrow> bool" where
  "isSpace c \<longleftrightarrow> c = CHR '' '' \<or> c = CHR 0x09 \<or> c = CHR 0x0D \<or> c = CHR 0x0A"

definition deliver :: "json \<Rightarrow> scanner \<Rightarrow> scanner" where
  "deliver v s =
     (case parseState s of
        [] \<Rightarrow> s\<lparr>top := Some v\<rparr>
      | ArrayValue vs # st \<Rightarrow> s\<lparr>parseState := ArrayValue (v # vs) # st\<rparr>
      | ObjectKey kvs k # st \<Rightarrow>
          (case v of
             JString key \<Rightarrow> s\<lparr>parseState := ObjectKey kvs (Some key) # st\<rparr>
           | _ \<Rightarrow> scan_error s)
      | ObjectValue kvs None # st \<Rightarrow> scan_error s
      | ObjectValue kvs (Some k) # st \<Rightarrow>
          s\<lparr>parseState := ObjectValue ((k, v) # kvs) None # st\<rparr>)"

definition pushParseState :: "frame \<Rightarrow> step \<Rightarrow> scanner \<Rightarrow> scanner" where
  "pushParseState f next s =
     (let st = f # parseState s in
      if length st \<le> maxNestingDepth then s\<lparr>parseState := st, step := next\<rparr>
      else scan_error (s\<lparr>parseState := st\<rparr>))"

definition popParseState :: "scanner \<Rightarrow> scanner" where
  "popParseState s =
     (case parseState s of
        [] \<Rightarrow> scan_error s
      | f # st \<Rightarrow>
          let v = (case f of
                     ArrayValue vs \<Rightarrow> JArray (rev vs)
                   | ObjectKey kvs _ \<Rightarrow> JObject (rev kvs)
                   | ObjectValue kvs _ \<Rightarrow> JObject (rev kvs));
              s' = deliver v (s\<lparr>parseState := st\<rparr>)
          in if st = [] then s'\<lparr>step := EndTop, endTop := True\<rparr>
             else s'\<lparr>step := EndValue\<rparr>)"

definition stateEndTop :: "scanner \<Rightarrow> char \<Rightarrow> scanner" where
  "stateEndTop s c = (if \<not> isSpace c then scan_error s else s)"

definition stateEndValue :: "scanner \<Rightarrow> char \<Rightarrow> scanner" where
  "stateEndValue s c =
     (case parseState s of
        [] \<Rightarrow> stateEndTop (s\<lparr>step := EndTop, endTop := True\<rparr>) c
      | f # st \<Rightarrow>
          if isSpace c then s\<lparr>step := EndValue\<rparr>
          else
            (case f of
               ObjectKey kvs k \<Rightarrow>
                 if c = CHR '':'' then s\<lparr>parseState := ObjectValue kvs k # st, step := BeginValue\<rparr>
                 else scan_error s
             | ObjectValue kvs k \<Rightarrow>
                 if c = CHR '','' then s\<lparr>parseState := ObjectKey kvs None # st, step := BeginString\<rparr>
                 else if c = CHR ''}'' then popParseState s
                 else scan_error s
             | ArrayValue vs \<Rightarrow>
                 if c = CHR '','' then s\<lparr>step := BeginValue\<rparr>
                 else if c = CHR '']'' then popParseState s
                 else scan_error s))"

definition endNumber :: "scanner \<Rightarrow> char \<Rightarrow> scanner" where
  "endNumber s c =
     stateEndValue
       (deliver (JNumber (lit s)) (s\<lparr>rangeErr := rangeErr s \<or> float64_overflow (lit s)\<rparr>)) c"

definition more :: "scanner \<Rightarrow> char \<Rightarrow> step \<Rightarrow> scanner" where
  "more s c next = s\<lparr>lit := lit s @ [c], step := next\<rparr>"

definition stateBeginString :: "scanner \<Rightarrow> char \<Rightarrow> scanner" where
  "stateBeginString s c =
     (if isSpace c then s
      else if c = CHR 0x22 then s\<lparr>step := InString, lit := []\<rparr>
      else scan_error s)"

definition stateBeginStringOrEmpty :: "scanner \<Rightarrow> char \<Rightarrow> scanner" where
  "stateBeginStringOrEmpty s c =
     (if isSpace c then s
      else if c = CHR ''}'' then
        (case parseState s of
           ObjectKey kvs k # st \<Rightarrow> stateEndValue (s\<lparr>parseState := ObjectValue kvs k # st\<rparr>) c
         | _ \<Rightarrow> scan_error s)
      else stateBeginString s c)"

definition stateBeginValue :: "scanner \<Rightarrow> char \<Rightarrow> scanner" where
  "stateBeginValue s c =
     (if isSpace c then s
      else if c = CHR ''{'' then pushParseState (ObjectKey [] None) BeginStringOrEmpty s
      else if c = CHR ''['' then pushParseState (ArrayValue []) BeginValueOrEmpty s
      else if c = CHR 0x22 then s\<lparr>step := InString, lit := []\<rparr>
      else if c = CHR ''-'' then s\<lparr>step := Neg, lit := [c]\<rparr>
      else if c = CHR ''0'' then s\<lparr>step := St0, lit := [c]\<rparr>
      else if c = CHR ''t'' then s\<lparr>step := StT\<rparr>
      else if c = CHR ''f'' then s\<lparr>step := StF\<rparr>
      else if c = CHR ''n'' then s\<lparr>step := StN\<rparr>
      else if byte_in c 0x31 0x39 then s\<lparr>step := St1, lit := [c]\<rparr>
      else scan_error s)"

definition stateBeginValueOrEmpty :: "scanner \<Rightarrow> char \<Rightarrow> scanner" where
  "stateBeginValueOrEmpty s c =
     (if isSpace c then s
      else if c = CHR '']'' then stateEndValue s c
      else stateBeginValue s c)"

definition state0 :: "scanner \<Rightarrow> char \<Rightarrow> scanner" where
  "state0 s c =
     (if c = CHR ''.'' then more s c Dot
      else if c = CHR ''e'' \<or> c = CHR ''E'' then more s c StE
      else endNumber s c)"

definition stateESign :: "scanner \<Rightarrow> char \<Rightarrow> scanner" where
  "stateESign s c = (if is_digit c then more s c E0 else scan_error s)"

definition literal_step :: "scanner \<Rightarrow> char \<Rightarrow> char \<Rightarrow> step \<Rightarrow> scanner" where
  "literal_step s c expected next = (if c = expected then s\<lparr>step := next\<rparr> else scan_error s)"

definition literal_end :: "scanner \<Rightarrow> char \<Rightarrow> char \<Rightarrow> json \<Rightarrow> scanner" where
  "literal_end s c expected v =
     (if c = expected then deliver v (s\<lparr>step := EndValue\<rparr>) else scan_error s)"

definition hex_step :: "scanner \<Rightarrow> char \<Rightarrow> step \<Rightarrow> scanner" where
  "hex_step s c next = (if hex_val c \<noteq> None then more s c next else scan_error s)"

definition scan_step :: "scanner \<Rightarrow> char \<Rightarrow> scanner" where
  "scan_step s c =
     (case step s of
        ScanError \<Rightarrow> s
      | BeginValueOrEmpty \<Rightarrow> stateBeginValueOrEmpty s c
      | BeginValue \<Rightarrow> stateBeginValue s c
      | BeginStringOrEmpty \<Rightarrow> stateBeginStringOrEmpty s c
      | BeginString \<Rightarrow> stateBeginString s c
      | EndValue \<Rightarrow> stateEndValue s c
      | EndTop \<Rightarrow> stateEndTop s c
      | InString \<Rightarrow>
          if c = CHR 0x22 then deliver (JString (unquote (lit s))) (s\<lparr>step := EndValue\<rparr>)
          else if c = CHR 0x5C then more s c InStringEsc
          else if byte_in c 0x00 0x1F then scan_error s
          else more s c InString
      | InStringEsc \<Rightarrow>
          if c \<in> set ''bfnrt/'' \<or> c = CHR 0x5C \<or> c = CHR 0x22 then more s c InString
          else if c = CHR ''u'' then more s c InStringEscU
          else scan_error s
      | InStringEscU \<Rightarrow> hex_step s c InStringEscU1
      | InStringEscU1 \<Rightarrow> hex_step s c InStringEscU12
      | InStringEscU12 \<Rightarrow> hex_step s c InStringEscU123
      | InStringEscU123 \<Rightarrow> hex_step s c InString
      | Neg \<Rightarrow>
          if c = CHR ''0'' then more s c St0
          else if byte_in c 0x31 0x39 then more s c St1
          else scan_error s
      | St1 \<Rightarrow> if is_digit c then more s c St1 else state0 s c
      | St0 \<Rightarrow> state0 s c
      | Dot \<Rightarrow> if is_digit c then more s c Dot0 else scan_error s
      | Dot0 \<Rightarrow>
          if is_digit c then more s c Dot0
          else if c = CHR ''e'' \<or> c = CHR ''E'' then more s c StE
          else endNumber s c
      | StE \<Rightarrow> if c = CHR ''+'' \<or> c = CHR ''-'' then more s c ESign else stateESign s c
      | ESign \<Rightarrow> stateESign s c
      | E0 \<Rightarrow> if is_digit c then more s c E0 else endNumber s c
      | StT \<Rightarrow> literal_step s c (CHR ''r'') Tr
      | Tr \<Rightarrow> literal_step s c (CHR ''u'') Tru
      | Tru \<Rightarrow> literal_end s c (CHR ''e'') (JBool True)
      | StF \<Rightarrow> literal_step s c (CHR ''a'') Fa
      | Fa \<Rightarrow> literal_step s c (CHR ''l'') Fal
      | Fal \<Rightarrow> literal_step s c (CHR ''s'') Fals
      | Fals \<Rightarrow> literal_end s c (CHR ''e'') (JBool False)
      | StN \<Rightarrow> literal_step s c (CHR ''u'') Nu
      | Nu \<Rightarrow> literal_step s c (CHR ''l'') Nul
      | Nul \<Rightarrow> literal_end s c (CHR ''l'') JNull)"

definition scan_reset :: scanner where
  "scan_reset = \<lparr>step = BeginValue, parseState = [], lit = [], top = None, endTop = False,
     rangeErr = False\<rparr>"

definition scan_eof :: "scanner \<Rightarrow> scanner option" where
  "scan_eof s =
     (if step s = ScanError then None
      else if endTop s then Some s
      else let s' = scan_step s (CHR '' '') in
           if step s' \<noteq> ScanError \<and> endTop s' then Some s' else None)"

text \<open>The value of a valid JSON text, with the flag for a number out of float64's range.\<close>

definition json_decode :: "string \<Rightarrow> (json \<times> bool) option" where
  "json_decode data =
     (case scan_eof (foldl scan_step scan_reset data) of
        None \<Rightarrow> None
      | Some s \<Rightarrow> (case top s of None \<Rightarrow> None | Some v \<Rightarrow> Some (v, rangeErr s)))"


subsection \<open>json.Unmarshal into a map\<close>

text \<open>
  \<open>json.Unmarshal\<close> first checks the whole text with the scanner (a syntax error), then
  stores the value. Into a \<open>map[string]interface{}\<close>: an object gives the map of its
  members (a later duplicate name replaces an earlier one), \<open>null\<close> leaves the nil map,
  any other value is a type error, and so is a number that float64 cannot hold. Into a
  \<open>map[string]string\<close>: each member must be a string or \<open>null\<close> (which stores the empty
  string), anything else is a type error.
\<close>

datatype json_error = SyntaxError | UnmarshalTypeError

definition Unmarshal_any :: "string \<Rightarrow> json_error + (string \<rightharpoonup> json)" where
  "Unmarshal_any data =
     (case json_decode data of
        None \<Rightarrow> Inl SyntaxError
      | Some (v, overflow) \<Rightarrow>
          (case v of
             JObject kvs \<Rightarrow> if overflow then Inl UnmarshalTypeError else Inr (map_of (rev kvs))
           | JNull \<Rightarrow> Inr Map.empty
           | _ \<Rightarrow> Inl UnmarshalTypeError))"

definition string_member :: "json \<Rightarrow> string option" where
  "string_member v = (case v of JString s \<Rightarrow> Some s | JNull \<Rightarrow> Some '''' | _ \<Rightarrow> None)"

definition Unmarshal_strings :: "string \<Rightarrow> json_error + (string \<rightharpoonup> string)" where
  "Unmarshal_strings data =
     (case json_decode data of
        None \<Rightarrow> Inl SyntaxError
      | Some (v, overflow) \<Rightarrow>
          (case v of
             JObject kvs \<Rightarrow>
               if list_all (\<lambda>(k, v). string_member v \<noteq> None) kvs
               then Inr (map_of (rev (map (\<lambda>(k, v). (k, the (string_member v))) kvs)))
               else Inl UnmarshalTypeError
           | JNull \<Rightarrow> Inr Map.empty
           | _ \<Rightarrow> Inl UnmarshalTypeError))"

text \<open>Reading a Go map at a name: the zero value when the name is absent.\<close>

definition map_string :: "(string \<rightharpoonup> string) \<Rightarrow> string \<Rightarrow> string" where
  "map_string m k = (case m k of None \<Rightarrow> '''' | Some v \<Rightarrow> v)"
section \<open>The durable list store (Redis), as the selector uses it\<close>

text \<open>
  The Redis server holds the list stored under \<open>apiKeysKey\<close>. Any command may fail with
  an I/O error: \<open>faults\<close> says, for each of the coming commands in turn, whether it fails;
  once the list is used up, commands succeed. \<open>LINDEX\<close> counts a negative index from the
  end and answers nil (the client's error \<open>redis.Nil\<close>) out of range.
\<close>

record redis_server =
  items :: "string list"
  faults :: "bool list"

datatype redis_error = RedisNil | RedisIOError

definition next_fault :: "redis_server \<Rightarrow> bool \<times> redis_server" where
  "next_fault r = (case faults r of [] \<Rightarrow> (False, r) | f # fs \<Rightarrow> (f, r\<lparr>faults := fs\<rparr>))"

definition LLen :: "redis_server \<Rightarrow> (redis_error + int) \<times> redis_server" where
  "LLen r =
     (let (f, r') = next_fault r in
      if f then (Inl RedisIOError, r') else (Inr (int (length (items r'))), r'))"

definition LIndex :: "redis_server \<Rightarrow> int \<Rightarrow> (redis_error + string) \<times> redis_server" where
  "LIndex r i =
     (let (f, r') = next_fault r;
          n = int (length (items r'));
          j = (if i < 0 then n + i else i)
      in if f then (Inl RedisIOError, r')
         else if 0 \<le> j \<and> j < n then (Inr (items r' ! nat j), r')
         else (Inl RedisNil, r'))"

definition RPush :: "redis_server \<Rightarrow> string \<Rightarrow> (redis_error + int) \<times> redis_server" where
  "RPush r v =
     (let (f, r') = next_fault r in
      if f then (Inl RedisIOError, r')
      else (Inr (int (length (items r')) + 1), r'\<lparr>items := items r' @ [v]\<rparr>))"

section \<open>The credential selector (util/redis/redis.go)\<close>

text \<open>
  The package's state: \<open>client\<close> is what \<open>GetClient()\<close> returns, \<open>None\<close> for the nil
  client of a failed connection (decided once per process) and otherwise the server it
  talks to; \<open>currentPos\<close> is the shared rotation cursor; \<open>env\<close> is the process environment.
  The mutex makes each locked section atomic; calls are modelled one after the other.
\<close>

record state =
  client :: "redis_server option"
  currentPos :: int
  env :: environ

text \<open>
  The locked section of \<open>getFallbackAPIKey\<close>:
  \<open>position := currentPos % count; currentPos = (currentPos + 1) % count\<close>,
  as the pair (position, new cursor).
\<close>

definition fallback_section :: "int \<Rightarrow> int \<Rightarrow> int \<times> int" where
  "fallback_section cur count = (go_rem cur count, go_rem (int_wrap (cur + 1)) count)"

definition getFallbackAPIKey :: "state \<Rightarrow> (panic + string) \<times> state" where
  "getFallbackAPIKey s =
     (let keys = getAPIKeysFromEnv (env s);
          count = int (length keys)
      in if count = 0 then (Inr '''', s)
         else let (position, cur') = fallback_section (currentPos s) count
              in (index keys position, s\<lparr>currentPos := cur'\<rparr>))"

text \<open>
  The locked section of \<open>GetAPIKey\<close>:
  \<open>currentPos = (currentPos + 1) % int(count); position := currentPos\<close>.
\<close>

definition durable_section :: "int \<Rightarrow> int \<Rightarrow> int \<times> int" where
  "durable_section cur count =
     (let cur' = go_rem (int_wrap (cur + 1)) count in (cur', cur'))"

text \<open>
  \<open>GetAPIKey\<close> returns \<open>(string, error)\<close>; every return statement of the source gives
  \<open>nil\<close> for the error. A panic of the fallback's index expression is not a return.
\<close>

definition fallback_result ::
  "state \<Rightarrow> (panic + string \<times> redis_error option) \<times> state" where
  "fallback_result s =
     (case getFallbackAPIKey s of
        (Inl p, s') \<Rightarrow> (Inl p, s')
      | (Inr k, s') \<Rightarrow> (Inr (k, None), s'))"

definition GetAPIKey :: "state \<Rightarrow> (panic + string \<times> redis_error option) \<times> state" where
  "GetAPIKey s =
     (case client s of
        None \<Rightarrow> fallback_result s
      | Some r \<Rightarrow>
          (case LLen r of
             (Inl err, r1) \<Rightarrow> fallback_result (s\<lparr>client := Some r1\<rparr>)
           | (Inr count, r1) \<Rightarrow>
               if count = 0 then fallback_result (s\<lparr>client := Some r1\<rparr>)
               else
                 let (position, cur') = durable_section (currentPos s) count in
                 (case LIndex r1 position of
                    (Inl err, r2) \<Rightarrow>
                      fallback_result (s\<lparr>client := Some r2, currentPos := cur'\<rparr>)
                  | (Inr apiKey, r2) \<Rightarrow>
                      (Inr (apiKey, None), s\<lparr>client := Some r2, currentPos := cur'\<rparr>))))"

section \<open>The selector with credential records (the second declaration of package redis)\<close>

text \<open>
  The repository holds a second \<open>redis.go\<close> whose stored records are JSON objects with a
  \<open>key\<close> and a \<open>proxy\<close> member; \<open>GetAPIKey\<close> returns \<open>(apiKey, proxyURL, error)\<close> there.
  Its \<open>getFallbackAPIKey\<close> and helpers are the same text as in the first file.
\<close>

definition fallback_result_json ::
  "state \<Rightarrow> (panic + string \<times> string \<times> redis_error option) \<times> state" where
  "fallback_result_json s =
     (case getFallbackAPIKey s of
        (Inl p, s') \<Rightarrow> (Inl p, s')
      | (Inr k, s') \<Rightarrow> (Inr (k, '''', None), s'))"

definition GetAPIKey_json ::
  "state \<Rightarrow> (panic + string \<times> string \<times> redis_error option) \<times> state" where
  "GetAPIKey_json s =
     (case client s of
        None \<Rightarrow> fallback_result_json s
      | Some r \<Rightarrow>
          (case LLen r of
             (Inl err, r1) \<Rightarrow> fallback_result_json (s\<lparr>client := Some r1\<rparr>)
           | (Inr count, r1) \<Rightarrow>
               if count = 0 then fallback_result_json (s\<lparr>client := Some r1\<rparr>)
               else
                 let (position, cur') = durable_section (currentPos s) count in
                 (case LIndex r1 position of
                    (Inl err, r2) \<Rightarrow>
                      fallback_result_json (s\<lparr>client := Some r2, currentPos := cur'\<rparr>)
                  | (Inr apiKeyJson, r2) \<Rightarrow>
                      (case Unmarshal_strings apiKeyJson of
                         Inl err \<Rightarrow>
                           fallback_result_json (s\<lparr>client := Some r2, currentPos := cur'\<rparr>)
                       | Inr keyData \<Rightarrow>
                           (Inr (map_string keyData ''key'', map_string keyData ''proxy'', None),
                            s\<lparr>client := Some r2, currentPos := cur'\<rparr>)))))"

section \<open>Initialization of the durable pool\<close>

text \<open>
  \<open>InitializeAPIKeys\<close> of util/redis/redis.go: the loop pushes every fallback credential
  and stops at the first failed \<open>RPUSH\<close>.
\<close>

fun push_all :: "redis_server \<Rightarrow> string list \<Rightarrow> redis_error option \<times> redis_server" where
  "push_all r [] = (None, r)"
| "push_all r (key # keys) =
     (case RPush r key of
        (Inl err, r') \<Rightarrow> (Some err, r')
      | (Inr n, r') \<Rightarrow> push_all r' keys)"

definition InitializeAPIKeys :: "state \<Rightarrow> redis_error option \<times> state" where
  "InitializeAPIKeys s =
     (case client s of
        None \<Rightarrow> (None, s)
      | Some r \<Rightarrow>
          (case LLen r of
             (Inl err, r1) \<Rightarrow> (Some err, s\<lparr>client := Some r1\<rparr>)
           | (Inr count, r1) \<Rightarrow>
               if count > 0 then (None, s\<lparr>client := Some r1\<rparr>)
               else
                 let apiKeys = getAPIKeysFromEnv (env s) in
                 if length apiKeys = 0 then (None, s\<lparr>client := Some r1\<rparr>)
                 else
                   let (err, r2) = push_all r1 apiKeys in (err, s\<lparr>client := Some r2\<rparr>)))"

text \<open>
  \<open>InitializeAPIKeys\<close> of the second file: a record is skipped when \<open>json.Unmarshal\<close> into
  a \<open>map[string]interface{}\<close> fails, or when the map has no \<open>key\<close> entry
  (\<open>_, hasKey := keyData["key"]\<close>).
\<close>

fun push_records :: "redis_server \<Rightarrow> string list \<Rightarrow> redis_error option \<times> redis_server" where
  "push_records r [] = (None, r)"
| "push_records r (key # keys) =
     (case Unmarshal_any key of
        Inl err \<Rightarrow> push_records r keys
      | Inr keyData \<Rightarrow>
          if keyData ''key'' = None then push_records r keys
          else
            (case RPush r key of
               (Inl err, r') \<Rightarrow> (Some err, r')
             | (Inr n, r') \<Rightarrow> push_records r' keys))"

definition InitializeAPIKeys_json :: "state \<Rightarrow> redis_error option \<times> state" where
  "InitializeAPIKeys_json s =
     (case client s of
        None \<Rightarrow> (None, s)
      | Some r \<Rightarrow>
          (case LLen r of
             (Inl err, r1) \<Rightarrow> (Some err, s\<lparr>client := Some r1\<rparr>)
           | (Inr count, r1) \<Rightarrow>
               if count > 0 then (None, s\<lparr>client := Some r1\<rparr>)
               else
                 let apiKeys = getAPIKeysFromEnv (env s) in
                 if length apiKeys = 0 then (None, s\<lparr>client := Some r1\<rparr>)
                 else
                   let (err, r2) = push_records r1 apiKeys in (err, s\<lparr>client := Some r2\<rparr>)))"

section \<open>Runs of the selector\<close>

text \<open>What the durable store holds, as the selector sees it: nothing without a client.\<close>

definition stored :: "state \<Rightarrow> string list" where
  "stored s = (case client s of None \<Rightarrow> [] | Some r \<Rightarrow> items r)"

text \<open>Consecutive calls, each on the state the one before left.\<close>

fun GetAPIKey_calls ::
  "nat \<Rightarrow> state \<Rightarrow> (panic + string \<times> redis_error option) list \<times> state" where
  "GetAPIKey_calls 0 s = ([], s)"
| "GetAPIKey_calls (Suc n) s =
     (let (r, s') = GetAPIKey s; (rs, s'') = GetAPIKey_calls n s' in (r # rs, s''))"

fun getFallbackAPIKey_calls :: "nat \<Rightarrow> state \<Rightarrow> (panic + string) list \<times> state" where
  "getFallbackAPIKey_calls 0 s = ([], s)"
| "getFallbackAPIKey_calls (Suc n) s =
     (let (r, s') = getFallbackAPIKey s; (rs, s'') = getFallbackAPIKey_calls n s'
      in (r # rs, s''))"

text \<open>The positions the locked sections take in consecutive calls on a pool of one size.\<close>

fun durable_positions :: "int \<Rightarrow> int \<Rightarrow> nat \<Rightarrow> int list" where
  "durable_positions cur count 0 = []"
| "durable_positions cur count (Suc n) =
     (let (position, cur') = durable_section cur count
      in position # durable_positions cur' count n)"

fun fallback_positions :: "int \<Rightarrow> int \<Rightarrow> nat \<Rightarrow> int list" where
  "fallback_positions cur count 0 = []"
| "fallback_positions cur count (Suc n) =
     (let (position, cur') = fallback_section cur count
      in position # fallback_positions cur' count n)"

text \<open>
  The cursor starts at 0 and is only ever assigned a remainder by a positive pool length,
  so it stays non-negative and below the largest \<open>int\<close>; pool lengths are Go \<open>int\<close>s.
\<close>

definition cursor_ok :: "int \<Rightarrow> bool" where
  "cursor_ok c \<longleftrightarrow> 0 \<le> c \<and> c < max_int"

definition state_ok :: "state \<Rightarrow> bool" where
  "state_ok s \<longleftrightarrow>
     cursor_ok (currentPos s) \<and> int (length (stored s)) \<le> max_int \<and>
     int (length (getAPIKeysFromEnv (env s))) \<le> max_int"

text \<open>
  An environment whose \<open>API_KEY\<close> holds no \<open>$\<close>: \<open>os.ExpandEnv\<close> leaves such a string as
  it is.
\<close>

definition plain_env :: "string \<Rightarrow> environ" where
  "plain_env keyStr = \<lparr>API_KEY = keyStr, ExpandEnv = (\<lambda>s. s)\<rparr>"

text \<open>A pool of three records with a fallback list of two credentials, the cursor at 0.\<close>

definition pool3 :: redis_server where
  "pool3 = \<lparr>items = [''k0-record'', ''k1-record'', ''k2-record''], faults = []\<rparr>"

definition pool3_state :: state where
  "pool3_state = \<lparr>client = Some pool3, currentPos = 0, env = plain_env ''f0-secret, f1-secret''\<rparr>"

section \<open>URLs (net/url)\<close>

text \<open>
  The parts of the standard library's \<open>net/url\<close> that \<open>SendToGemini\<close> runs, after the
  source of Go 1.21 (the toolchain the repository's Dockerfile builds with).
\<close>

subsection \<open>Escaping\<close>

datatype encoding =
    encodePath
  | encodePathSegment
  | encodeHost
  | encodeZone
  | encodeUserPassword
  | encodeQueryComponent
  | encodeFragment

definition is_alnum :: "char \<Rightarrow> bool" where
  "is_alnum c \<longleftrightarrow> byte_in c 0x61 0x7A \<or> byte_in c 0x41 0x5A \<or> byte_in c 0x30 0x39"

definition shouldEscape :: "char \<Rightarrow> encoding \<Rightarrow> bool" where
  \<open>shouldEscape c mode =
     (if is_alnum c then False
      else if (mode = encodeHost \<or> mode = encodeZone) \<and> c \<in> set ''!$&()*+,;=:[]<>"'' then False
      else if (mode = encodeHost \<or> mode = encodeZone) \<and> c = CHR 0x27 then False
      else if c \<in> set ''-_.~'' then False
      else if c \<in> set ''$&+,/:;=?@'' \<and> mode = encodePath then c = CHR ''?''
      else if c \<in> set ''$&+,/:;=?@'' \<and> mode = encodePathSegment then c \<in> set ''/;,?''
      else if c \<in> set ''$&+,/:;=?@'' \<and> mode = encodeUserPassword then c \<in> set ''@/?:''
      else if c \<in> set ''$&+,/:;=?@'' \<and> mode = encodeQueryComponent then True
      else if c \<in> set ''$&+,/:;=?@'' \<and> mode = encodeFragment then False
      else if mode = encodeFragment \<and> c \<in> set ''!()*'' then False
      else True)\<close>

definition ishex :: "char \<Rightarrow> bool" where
  "ishex c \<longleftrightarrow> hex_val c \<noteq> None"

definition unhex :: "char \<Rightarrow> int" where
  "unhex c = (case hex_val c of Some v \<Rightarrow> v | None \<Rightarrow> 0)"

datatype url_error =
    EscapeError string
  | InvalidHostError string
  | InvalidControlCharacter
  | MissingProtocolScheme
  | FirstSegmentColon
  | InvalidUserinfo
  | MissingBracket
  | InvalidPort string

text \<open>
  \<open>unescape\<close>: a \<open>%\<close> must be followed by two hexadecimal digits; in a host only bytes
  from 0x80 on (and \<open>%25\<close>) may be escaped; in the zone of an IP literal an escape may
  stand for \<open>%\<close>, a space or a byte a host may hold; in a host or a zone an ASCII byte
  that would need escaping is an error; \<open>+\<close> is a space in a query component only.
\<close>

fun unescape :: "string \<Rightarrow> encoding \<Rightarrow> url_error + string" where
  "unescape [] mode = Inr []"
| "unescape (c # s) mode =
     (if c = CHR ''%'' then
        (case s of
           h1 # h2 # s' \<Rightarrow>
             if \<not> ishex h1 \<or> \<not> ishex h2 then Inl (EscapeError (take 3 (c # s)))
             else if mode = encodeHost \<and> unhex h1 < 8 \<and> [c, h1, h2] \<noteq> ''%25''
               then Inl (EscapeError [c, h1, h2])
             else if mode = encodeZone \<and> [c, h1, h2] \<noteq> ''%25'' \<and>
                     unhex h1 * 16 + unhex h2 \<noteq> 0x20 \<and>
                     shouldEscape (char_of (unhex h1 * 16 + unhex h2)) encodeHost
               then Inl (EscapeError [c, h1, h2])
             else (case unescape s' mode of
                     Inl e \<Rightarrow> Inl e
                   | Inr t \<Rightarrow> Inr (char_of (unhex h1 * 16 + unhex h2) # t))
         | _ \<Rightarrow> Inl (EscapeError (take 3 (c # s))))
      else if c \<noteq> CHR ''+'' \<and> (mode = encodeHost \<or> mode = encodeZone) \<and>
              byte_in c 0x00 0x7F \<and> shouldEscape c encodeHost
        then Inl (InvalidHostError [c])
      else (case unescape s mode of
              Inl e \<Rightarrow> Inl e
            | Inr t \<Rightarrow>
                Inr ((if c = CHR ''+'' \<and> mode = encodeQueryComponent then CHR '' '' else c) # t)))"

definition upperhex :: "int \<Rightarrow> char" where
  "upperhex n = ''0123456789ABCDEF'' ! nat n"

fun escape :: "string \<Rightarrow> encoding \<Rightarrow> string" where
  "escape [] mode = []"
| "escape (c # s) mode =
     (if shouldEscape c mode then
        (if c = CHR '' '' \<and> mode = encodeQueryComponent then CHR ''+'' # escape s mode
         else CHR ''%'' # upperhex (of_char c div 16) # upperhex (of_char c mod 16) #
              escape s mode)
      else c # escape s mode)"

definition QueryUnescape :: "string \<Rightarrow> url_error + string" where
  "QueryUnescape s = unescape s encodeQueryComponent"

definition QueryEscape :: "string \<Rightarrow> string" where
  "QueryEscape s = escape s encodeQueryComponent"

definition validEncoded :: "string \<Rightarrow> encoding \<Rightarrow> bool" where
  "validEncoded s mode =
     list_all (\<lambda>c. c \<in> set ''!$&()*+,;=:@[]%'' \<or> c = CHR 0x27 \<or> \<not> shouldEscape c mode) s"

subsection \<open>strings.Cut\<close>

text \<open>\<open>strings.Cut(s, sep)\<close> for a one-byte separator: the text before and after its first
  occurrence, or \<open>s\<close> and the empty string when there is none.\<close>

definition Cut :: "string \<Rightarrow> char \<Rightarrow> string \<times> string \<times> bool" where
  "Cut s sep =
     (let before = takeWhile (\<lambda>c. c \<noteq> sep) s; rest = dropWhile (\<lambda>c. c \<noteq> sep) s
      in (before, tl rest, rest \<noteq> []))"

subsection \<open>Query values\<close>

text \<open>
  \<open>url.Values\<close> is a \<open>map[string][]string\<close>: modelled as an association list with each
  name once. \<open>Encode\<close> walks the names in sorted order, so the order names were
  inserted in does not show.
\<close>

type_synonym Values = "(string \<times> string list) list"

definition Values_lookup :: "Values \<Rightarrow> string \<Rightarrow> string list" where
  "Values_lookup v k = (case map_of v k of None \<Rightarrow> [] | Some vs \<Rightarrow> vs)"

definition Values_append :: "Values \<Rightarrow> string \<Rightarrow> string \<Rightarrow> Values" where
  "Values_append v k x =
     (if k \<in> fst ` set v then map (\<lambda>(k', vs). if k' = k then (k', vs @ [x]) else (k', vs)) v
      else v @ [(k, [x])])"

definition Values_Get :: "Values \<Rightarrow> string \<Rightarrow> string" where
  "Values_Get v k = (case Values_lookup v k of [] \<Rightarrow> '''' | x # xs \<Rightarrow> x)"

definition Values_Del :: "Values \<Rightarrow> string \<Rightarrow> Values" where
  "Values_Del v k = filter (\<lambda>(k', vs). k' \<noteq> k) v"

definition Values_Set :: "Values \<Rightarrow> string \<Rightarrow> string \<Rightarrow> Values" where
  "Values_Set v k x = Values_Del v k @ [(k, [x])]"

text \<open>
  \<open>parseQuery\<close>: the pairs between \<open>&\<close>; a pair with a semicolon, an empty pair, and a
  pair whose name or value does not unescape are dropped (\<open>URL.Query\<close> discards the
  error).
\<close>

definition parse_pair :: "string \<Rightarrow> (string \<times> string) option" where
  "parse_pair p =
     (if CHR '';'' \<in> set p \<or> p = [] then None
      else let (k, v, found) = Cut p (CHR ''='') in
           (case QueryUnescape k of
              Inl e \<Rightarrow> None
            | Inr key \<Rightarrow>
                (case QueryUnescape v of Inl e \<Rightarrow> None | Inr val \<Rightarrow> Some (key, val))))"

definition ParseQuery :: "string \<Rightarrow> Values" where
  "ParseQuery query =
     foldl (\<lambda>m p. case parse_pair p of None \<Rightarrow> m | Some (k, v) \<Rightarrow> Values_append m k v) []
       (if query = [] then [] else Split (CHR ''&'') query)"

definition join_amp :: "string list \<Rightarrow> string" where
  "join_amp ps = (case ps of [] \<Rightarrow> [] | p # ps' \<Rightarrow> p @ concat (map (\<lambda>q. CHR ''&'' # q) ps'))"

definition Encode :: "Values \<Rightarrow> string" where
  "Encode v =
     join_amp
       (concat
          (map (\<lambda>k. map (\<lambda>x. QueryEscape k @ ''='' @ QueryEscape x) (Values_lookup v k))
             (sort (map fst v))))"

subsection \<open>Parse and String\<close>

text \<open>
  \<open>Userinfo\<close> and \<open>URL\<close> with the fields of the library's structs; the field \<open>User\<close> is
  \<open>None\<close> for the nil pointer.
\<close>

record Userinfo =
  username :: string
  password :: string
  passwordSet :: bool

record URL =
  Scheme :: string
  Opaque :: string
  User :: "Userinfo option"
  Host :: string
  Path :: string
  RawPath :: string
  OmitHost :: bool
  ForceQuery :: bool
  RawQuery :: string
  Fragment :: string
  RawFragment :: string

definition new_URL :: URL where
  "new_URL = \<lparr>Scheme = [], Opaque = [], User = None, Host = [], Path = [], RawPath = [],
              OmitHost = False, ForceQuery = False, RawQuery = [], Fragment = [],
              RawFragment = []\<rparr>"

definition stringContainsCTLByte :: "string \<Rightarrow> bool" where
  "stringContainsCTLByte s \<longleftrightarrow> (\<exists>c \<in> set s. byte_in c 0x00 0x1F \<or> c = CHR 0x7F)"

text \<open>
  \<open>strings.HasPrefix\<close>; \<open>strings.LastIndex\<close> for a one-byte separator, -1 when it does
  not occur; \<open>strings.Index\<close> for any separator.
\<close>

definition HasPrefix :: "string \<Rightarrow> string \<Rightarrow> bool" where
  "HasPrefix s p \<longleftrightarrow> take (length p) s = p"

definition LastIndex :: "string \<Rightarrow> char \<Rightarrow> int" where
  "LastIndex s sep =
     (if sep \<in> set s then int (length s) - 1 - int (length (takeWhile (\<lambda>c. c \<noteq> sep) (rev s)))
      else - 1)"

fun Index_from :: "int \<Rightarrow> string \<Rightarrow> string \<Rightarrow> int" where
  "Index_from i [] sep = (if sep = [] then i else - 1)"
| "Index_from i (c # s) sep =
     (if HasPrefix (c # s) sep then i else Index_from (i + 1) s sep)"

definition Index :: "string \<Rightarrow> string \<Rightarrow> int" where
  "Index s sep = Index_from 0 s sep"

text \<open>
  \<open>getScheme\<close>: letters, then also digits and \<open>+-.\<close>, up to the first colon; a colon at the
  start is an error, and any other byte means there is no scheme.
\<close>

fun getScheme_from :: "nat \<Rightarrow> string \<Rightarrow> string \<Rightarrow> url_error + string \<times> string" where
  "getScheme_from i whole [] = Inr ([], whole)"
| "getScheme_from i whole (c # s) =
     (if byte_in c 0x61 0x7A \<or> byte_in c 0x41 0x5A then getScheme_from (Suc i) whole s
      else if byte_in c 0x30 0x39 \<or> c \<in> set ''+-.'' then
        (if i = 0 then Inr ([], whole) else getScheme_from (Suc i) whole s)
      else if c = CHR '':'' then
        (if i = 0 then Inl MissingProtocolScheme else Inr (take i whole, s))
      else Inr ([], whole))"

definition getScheme :: "string \<Rightarrow> url_error + string \<times> string" where
  "getScheme rawURL = getScheme_from 0 rawURL rawURL"

text \<open>\<open>strings.ToLower\<close> on a scheme, which \<open>getScheme\<close> leaves with ASCII bytes only.\<close>

definition ToLower_ascii :: "string \<Rightarrow> string" where
  "ToLower_ascii s = map (\<lambda>c. if byte_in c 0x41 0x5A then char_of (of_char c + (32::int)) else c) s"

text \<open>
  \<open>validOptionalPort\<close> and \<open>validUserinfo\<close> range over runes; a byte from 0x80 on makes a
  rune that neither accepts, so they are tests of every byte.
\<close>

definition validOptionalPort :: "string \<Rightarrow> bool" where
  "validOptionalPort port \<longleftrightarrow>
     port = [] \<or> (hd port = CHR '':'' \<and> list_all (\<lambda>b. byte_in b 0x30 0x39) (tl port))"

definition validUserinfo :: "string \<Rightarrow> bool" where
  "validUserinfo s \<longleftrightarrow>
     list_all (\<lambda>r. is_alnum r \<or> r \<in> set ''-._:~!$&()*+,;=%@'' \<or> r = CHR 0x27) s"

text \<open>
  \<open>parseHost\<close>: an IP literal in brackets with an optional port and an optional zone
  (from \<open>%25\<close> to the closing bracket), or a name with an optional port.
\<close>

definition parseHost :: "string \<Rightarrow> url_error + string" where
  "parseHost host =
     (if HasPrefix host ''['' then
        (let i = LastIndex host (CHR '']'') in
         if i < 0 then Inl MissingBracket
         else
           let colonPort = drop (nat (i + 1)) host in
           if \<not> validOptionalPort colonPort then Inl (InvalidPort colonPort)
           else
             let zone = Index (take (nat i) host) ''%25'' in
             if zone \<ge> 0 then
               (case unescape (take (nat zone) host) encodeHost of
                  Inl e \<Rightarrow> Inl e
                | Inr host1 \<Rightarrow>
                    (case unescape (drop (nat zone) (take (nat i) host)) encodeZone of
                       Inl e \<Rightarrow> Inl e
                     | Inr host2 \<Rightarrow>
                         (case unescape (drop (nat i) host) encodeHost of
                            Inl e \<Rightarrow> Inl e
                          | Inr host3 \<Rightarrow> Inr (host1 @ host2 @ host3))))
             else unescape host encodeHost)
      else
        (let i = LastIndex host (CHR '':'') in
         if i \<noteq> - 1 \<and> \<not> validOptionalPort (drop (nat i) host)
         then Inl (InvalidPort (drop (nat i) host))
         else unescape host encodeHost))"

text \<open>
  \<open>parseAuthority\<close>: the host after the last \<open>@\<close>, and before it the user information,
  a name or a name and a password.
\<close>

definition parseAuthority :: "string \<Rightarrow> url_error + Userinfo option \<times> string" where
  "parseAuthority authority =
     (let i = LastIndex authority (CHR ''@'') in
      case (if i < 0 then parseHost authority else parseHost (drop (nat (i + 1)) authority)) of
        Inl e \<Rightarrow> Inl e
      | Inr host \<Rightarrow>
          if i < 0 then Inr (None, host)
          else
            let userinfo = take (nat i) authority in
            if \<not> validUserinfo userinfo then Inl InvalidUserinfo
            else if CHR '':'' \<notin> set userinfo then
              (case unescape userinfo encodeUserPassword of
                 Inl e \<Rightarrow> Inl e
               | Inr name \<Rightarrow>
                   Inr (Some \<lparr>username = name, password = [], passwordSet = False\<rparr>, host))
            else
              (case unescape (fst (Cut userinfo (CHR '':''))) encodeUserPassword of
                 Inl e \<Rightarrow> Inl e
               | Inr name \<Rightarrow>
                   (case unescape (fst (snd (Cut userinfo (CHR '':'')))) encodeUserPassword of
                      Inl e \<Rightarrow> Inl e
                    | Inr pass \<Rightarrow>
                        Inr (Some \<lparr>username = name, password = pass, passwordSet = True\<rparr>,
                             host))))"

definition setPath :: "URL \<Rightarrow> string \<Rightarrow> url_error + URL" where
  "setPath u p =
     (case unescape p encodePath of
        Inl e \<Rightarrow> Inl e
      | Inr path \<Rightarrow>
          Inr (u\<lparr>Path := path, RawPath := (if p = escape path encodePath then [] else p)\<rparr>))"

definition setFragment :: "URL \<Rightarrow> string \<Rightarrow> url_error + URL" where
  "setFragment u f =
     (case unescape f encodeFragment of
        Inl e \<Rightarrow> Inl e
      | Inr frag \<Rightarrow>
          Inr (u\<lparr>Fragment := frag,
                RawFragment := (if f = escape frag encodeFragment then [] else f)\<rparr>))"

text \<open>
  \<open>parse\<close> with \<open>viaRequest\<close> false, as \<open>url.Parse\<close> calls it: the bare \<open>*\<close>; the scheme;
  the query cut off at the first question mark (a lone final one forces an empty
  query); a rest without a leading slash, opaque after a scheme and otherwise not to
  hold a colon in its first segment; the authority after \<open>//\<close>; the path.
\<close>

definition parse_url :: "string \<Rightarrow> url_error + URL" where
  "parse_url rawURL =
     (if stringContainsCTLByte rawURL then Inl InvalidControlCharacter
      else if rawURL = ''*'' then Inr (new_URL\<lparr>Path := ''*''\<rparr>)
      else
        (case getScheme rawURL of
           Inl e \<Rightarrow> Inl e
         | Inr (scheme, rest0) \<Rightarrow>
             let force = (rest0 \<noteq> [] \<and> last rest0 = CHR ''?'' \<and>
                          count_list rest0 (CHR ''?'') = 1);
                 (rest, query) = (if force then (butlast rest0, [])
                                  else (fst (Cut rest0 (CHR ''?'')), fst (snd (Cut rest0 (CHR ''?'')))));
                 url = new_URL\<lparr>Scheme := ToLower_ascii scheme, ForceQuery := force,
                                RawQuery := query\<rparr>
             in if \<not> HasPrefix rest ''/'' \<and> scheme \<noteq> [] then Inr (url\<lparr>Opaque := rest\<rparr>)
                else if \<not> HasPrefix rest ''/'' \<and> CHR '':'' \<in> set (fst (Cut rest (CHR ''/'')))
                  then Inl FirstSegmentColon
                else if (scheme \<noteq> [] \<or> \<not> HasPrefix rest ''///'') \<and> HasPrefix rest ''//'' then
                  let (authority, path, found) = Cut (drop 2 rest) (CHR ''/'');
                      path' = (if found then CHR ''/'' # path else [])
                  in (case parseAuthority authority of
                        Inl e \<Rightarrow> Inl e
                      | Inr (user, host) \<Rightarrow> setPath (url\<lparr>User := user, Host := host\<rparr>) path')
                else setPath (url\<lparr>OmitHost := (scheme \<noteq> [] \<and> HasPrefix rest ''/'')\<rparr>) rest))"

definition Parse :: "string \<Rightarrow> url_error + URL" where
  "Parse rawURL =
     (let (u, frag, found) = Cut rawURL (CHR ''#'') in
      case parse_url u of
        Inl e \<Rightarrow> Inl e
      | Inr url \<Rightarrow> if frag = [] then Inr url else setFragment url frag)"

definition EscapedPath :: "URL \<Rightarrow> string" where
  "EscapedPath u =
     (if RawPath u \<noteq> [] \<and> validEncoded (RawPath u) encodePath \<and>
         unescape (RawPath u) encodePath = Inr (Path u)
      then RawPath u
      else if Path u = ''*'' then ''*''
      else escape (Path u) encodePath)"

definition EscapedFragment :: "URL \<Rightarrow> string" where
  "EscapedFragment u =
     (if RawFragment u \<noteq> [] \<and> validEncoded (RawFragment u) encodeFragment \<and>
         unescape (RawFragment u) encodeFragment = Inr (Fragment u)
      then RawFragment u
      else escape (Fragment u) encodeFragment)"

definition Userinfo_String :: "Userinfo \<Rightarrow> string" where
  "Userinfo_String u =
     escape (username u) encodeUserPassword @
     (if passwordSet u then CHR '':'' # escape (password u) encodeUserPassword else [])"

text \<open>
  \<open>URL.String\<close>: the scheme and a colon; then the opaque part, or the authority (after
  \<open>//\<close>, unless an empty host is to be left out), a slash before a path that lacks one
  after a host, \<open>./\<close> before a first segment with a colon when nothing is written yet,
  and the escaped path; then the query and the fragment.
\<close>

definition URL_String :: "URL \<Rightarrow> string" where
  "URL_String u =
     (let buf = (if Scheme u \<noteq> [] then Scheme u @ '':'' else []);
          buf =
            (if Opaque u \<noteq> [] then buf @ Opaque u
             else
               let buf =
                     (if Scheme u \<noteq> [] \<or> Host u \<noteq> [] \<or> User u \<noteq> None then
                        (if OmitHost u \<and> Host u = [] \<and> User u = None then buf
                         else
                           buf @
                           (if Host u \<noteq> [] \<or> Path u \<noteq> [] \<or> User u \<noteq> None then ''//'' else []) @
                           (case User u of None \<Rightarrow> [] | Some ui \<Rightarrow> Userinfo_String ui @ ''@'') @
                           escape (Host u) encodeHost)
                      else buf);
                   path = EscapedPath u;
                   buf = (if path \<noteq> [] \<and> hd path \<noteq> CHR ''/'' \<and> Host u \<noteq> []
                          then buf @ ''/'' else buf);
                   buf = (if buf = [] \<and> CHR '':'' \<in> set (fst (Cut path (CHR ''/'')))
                          then buf @ ''./'' else buf)
               in buf @ path)
      in buf @
         (if ForceQuery u \<or> RawQuery u \<noteq> [] then CHR ''?'' # RawQuery u else []) @
         (if Fragment u \<noteq> [] then CHR ''#'' # EscapedFragment u else []))"
section \<open>HTTP headers and the response writer (net/http)\<close>

text \<open>
  \<open>http.Header\<close> is a \<open>map[string][]string\<close> like \<open>url.Values\<close>; \<open>Set\<close>, \<open>Add\<close> and \<open>Get\<close>
  first bring the name into canonical form (\<open>textproto.CanonicalMIMEHeaderKey\<close>): a name
  of token bytes gets an upper-case letter at the start and after each hyphen and
  lower-case letters elsewhere, any other name is left as it is.
\<close>

type_synonym Header = "(string \<times> string list) list"

definition validHeaderFieldByte :: "char \<Rightarrow> bool" where
  "validHeaderFieldByte c \<longleftrightarrow> is_alnum c \<or> c \<in> set ''!#$%&*+-.^_`|~'' \<or> c = CHR 0x27"

fun canonical_from :: "bool \<Rightarrow> string \<Rightarrow> string" where
  "canonical_from upper [] = []"
| "canonical_from upper (c # s) =
     (if upper \<and> byte_in c 0x61 0x7A then char_of (of_char c - (32::int))
      else if \<not> upper \<and> byte_in c 0x41 0x5A then char_of (of_char c + (32::int))
      else c) # canonical_from (c = CHR ''-'') s"

definition CanonicalMIMEHeaderKey :: "string \<Rightarrow> string" where
  "CanonicalMIMEHeaderKey s = (if list_all validHeaderFieldByte s then canonical_from True s else s)"

definition Header_Set :: "Header \<Rightarrow> string \<Rightarrow> string \<Rightarrow> Header" where
  "Header_Set h k v = Values_Set h (CanonicalMIMEHeaderKey k) v"

definition Header_Add :: "Header \<Rightarrow> string \<Rightarrow> string \<Rightarrow> Header" where
  "Header_Add h k v = Values_append h (CanonicalMIMEHeaderKey k) v"

definition Header_Get :: "Header \<Rightarrow> string \<Rightarrow> string" where
  "Header_Get h k = Values_Get h (CanonicalMIMEHeaderKey k)"

text \<open>
  The \<open>http.ResponseWriter\<close> of one request, as the handler drives it: the header map,
  the status of the response header once it is written, and the body writes the handler
  has made, in order. \<open>WriteHeader\<close> after the header is written does nothing; a code
  outside 100..999 panics; a code from 100 to 199 other than 101 sends an informational
  response and leaves the final header unwritten. The first body write sends the header
  with status 200 when none was written. A body write is kept as the call the handler
  makes: the bytes of \<open>w.Write\<close>, or the format string of \<open>fmt.Fprintf(w, format)\<close> with no
  operands (which writes the format as it is when it holds no \<open>%\<close>).
\<close>

datatype body_write = Written string | Formatted string

record ResponseWriter =
  rw_header :: Header
  rw_status :: "int option"
  rw_body :: "body_write list"

definition new_writer :: ResponseWriter where
  "new_writer = \<lparr>rw_header = [], rw_status = None, rw_body = []\<rparr>"

datatype http_panic = Selector panic | InvalidWriteHeaderCode int

definition WriteHeader :: "ResponseWriter \<Rightarrow> int \<Rightarrow> http_panic + ResponseWriter" where
  "WriteHeader w code =
     (if rw_status w \<noteq> None then Inr w
      else if code < 100 \<or> code > 999 then Inl (InvalidWriteHeaderCode code)
      else if 100 \<le> code \<and> code \<le> 199 \<and> code \<noteq> 101 then Inr w
      else Inr (w\<lparr>rw_status := Some code\<rparr>))"

definition body_call :: "ResponseWriter \<Rightarrow> body_write \<Rightarrow> ResponseWriter" where
  "body_call w b =
     w\<lparr>rw_status := (case rw_status w of None \<Rightarrow> Some 200 | Some c \<Rightarrow> Some c),
       rw_body := rw_body w @ [b]\<rparr>"

section \<open>json.Marshal of the handler's Response\<close>

text \<open>
  The encoder's string escaping (Go 1.21, HTML escaping on): the double quote and the
  backslash get a backslash in front; newline, return and tab become a backslash and
  \<open>n\<close>, \<open>r\<close>, \<open>t\<close>; other control bytes and \<open><\<close>, \<open>>\<close>, \<open>&\<close> become a backslash,
  \<open>u00\<close> and two hexadecimal digits; a byte that is not UTF-8 becomes the escape of
  U+FFFD; U+2028 and U+2029 are escaped; everything else is copied.
\<close>

definition lowerhex :: "int \<Rightarrow> char" where
  "lowerhex n = ''0123456789abcdef'' ! nat n"

definition json_escape_ascii :: "char \<Rightarrow> string" where
  \<open>json_escape_ascii c =
     (if byte_in c 0x20 0x7F \<and> c \<notin> set ''"&<>'' \<and> c \<noteq> CHR 0x5C then [c]
      else if c = CHR 0x5C \<or> c = CHR 0x22 then [CHR 0x5C, c]
      else if c = CHR 0x0A then [CHR 0x5C, CHR ''n'']
      else if c = CHR 0x0D then [CHR 0x5C, CHR ''r'']
      else if c = CHR 0x09 then [CHR 0x5C, CHR ''t'']
      else [CHR 0x5C] @ ''u00'' @ [lowerhex (of_char c div 16), lowerhex (of_char c mod 16)])\<close>

function json_escape :: "string \<Rightarrow> string" where
  "json_escape [] = []"
| "json_escape (c # s) =
     (if byte_in c 0x00 0x7F then json_escape_ascii c @ json_escape s
      else
        (let n = utf8_size (c # s) in
         if n = 0 then [CHR 0x5C] @ ''ufffd'' @ json_escape s
         else if take 3 (c # s) = [CHR 0xE2, CHR 0x80, CHR 0xA8]
           then [CHR 0x5C] @ ''u2028'' @ json_escape (drop 2 s)
         else if take 3 (c # s) = [CHR 0xE2, CHR 0x80, CHR 0xA9]
           then [CHR 0x5C] @ ''u2029'' @ json_escape (drop 2 s)
         else take n (c # s) @ json_escape (drop (n - 1) s)))"
  by pat_completeness auto
termination
  by (relation "measure length") auto

function Itoa_nat :: "nat \<Rightarrow> string" where
  "Itoa_nat n =
     (if n < 10 then [''0123456789'' ! n]
      else Itoa_nat (n div 10) @ [''0123456789'' ! (n mod 10)])"
  by pat_completeness auto
termination
  by (relation "measure id") auto

declare Itoa_nat.simps [simp del]

definition Itoa :: "int \<Rightarrow> string" where
  "Itoa i = (if i < 0 then CHR ''-'' # Itoa_nat (nat (- i)) else Itoa_nat (nat i))"

record Response =
  Code :: int
  Body :: string

definition json_Marshal :: "Response \<Rightarrow> string" where
  \<open>json_Marshal resp =
     ''{"code":'' @ Itoa (Code resp) @ '',"body":"'' @ json_escape (Body resp) @ ''"}''\<close>

section \<open>The forwarder (handler/handler.go)\<close>

definition PROXY_URL :: string where
  "PROXY_URL = ''https://generativelanguage.googleapis.com''"

record SendToGeminiInput =
  Url :: string
  ContentType :: string
  APIKey :: string
  Payload :: string
  Method :: string
  Headers :: Header

record GeminiResponse =
  resp_Body :: string
  StatusCode :: int
  resp_Headers :: Header

text \<open>The request \<open>http.NewRequestWithContext\<close> builds and the handler completes.\<close>

record http_request =
  rq_Method :: string
  rq_URL :: URL
  rq_Header :: Header
  rq_Body :: string

text \<open>
  What lies outside the repository and is taken as given: the upstream exchange
  (\<open>httpClient.Do\<close> followed by \<open>io.ReadAll\<close> of the body), which answers a transport
  error with its text, or a status and headers with the body or the text of a read error;
  and the texts of the standard library's errors for a URL that does not parse and for a
  method that is not a token.
\<close>

datatype upstream_reply =
    TransportError string
  | Reply int Header "string + string"

record externals =
  roundtrip :: "http_request \<Rightarrow> upstream_reply"
  parse_error_text :: "string \<Rightarrow> url_error \<Rightarrow> string"
  method_error_text :: "string \<Rightarrow> string"

text \<open>
  The errors \<open>SendToGemini\<close> returns, each a \<open>fmt.Errorf\<close> with a fixed prefix; \<open>Error_text\<close>
  is the error's \<open>Error()\<close>.
\<close>

datatype send_error =
    CouldNotParseUrl string
  | InvalidApiKey string
  | CouldNotCreateRequest string
  | CouldNotSendRequest string
  | CouldNotReadBody string

definition Error_text :: "send_error \<Rightarrow> string" where
  "Error_text e =
     (case e of
        CouldNotParseUrl m \<Rightarrow> ''could not parse url: '' @ m
      | InvalidApiKey k \<Rightarrow> ''invalid api key: '' @ k
      | CouldNotCreateRequest m \<Rightarrow> ''could not create request: '' @ m
      | CouldNotSendRequest m \<Rightarrow> ''could not send request: '' @ m
      | CouldNotReadBody m \<Rightarrow> ''could not read response body: '' @ m)"

text \<open>
  The log (package \<open>util/log\<close> is not among the sources): each call of \<open>log.Info\<close> or
  \<open>log.Error\<close> in packages \<open>api\<close> and \<open>handler\<close> is kept with its format and operands. The
  log calls of package \<open>redis\<close> are left out.
\<close>

datatype log_level = LogInfo | LogError

datatype log_arg =
    AString string
  | AInt int
  | AError string
  | AHeaderMap "(string \<times> string) list"
  | AValues Values

type_synonym log_entry = "log_level \<times> string \<times> log_arg list"

text \<open>
  The world a request runs in: the selector's state, the log, the requests handed to
  \<open>httpClient.Do\<close> so far, and the response writer.
\<close>

record world =
  sel :: state
  logs :: "log_entry list"
  sent :: "http_request list"
  rw :: ResponseWriter

definition log_Info :: "world \<Rightarrow> string \<Rightarrow> log_arg list \<Rightarrow> world" where
  "log_Info w f args = w\<lparr>logs := logs w @ [(LogInfo, f, args)]\<rparr>"

definition log_Error :: "world \<Rightarrow> string \<Rightarrow> log_arg list \<Rightarrow> world" where
  "log_Error w f args = w\<lparr>logs := logs w @ [(LogError, f, args)]\<rparr>"

text \<open>
  \<open>getAPIKey\<close> of package \<open>handler\<close>: the credential of the input when it is not empty,
  otherwise the selector's (\<open>redis.GetAPIKey\<close> with two results, the first file's).
\<close>

definition getAPIKey :: "SendToGeminiInput \<Rightarrow> world \<Rightarrow> (http_panic + string) \<times> world" where
  "getAPIKey inp w =
     (if APIKey inp \<noteq> '''' then (Inr (APIKey inp), w)
      else
        (case GetAPIKey (sel w) of
           (Inl p, s') \<Rightarrow> (Inl (Selector p), w\<lparr>sel := s'\<rparr>)
         | (Inr (apiKey, err), s') \<Rightarrow>
             (Inr apiKey,
              (case err of
                 None \<Rightarrow> w\<lparr>sel := s'\<rparr>
               | Some e \<Rightarrow>
                   log_Error (w\<lparr>sel := s'\<rparr>) ''Failed to get API key from Redis: %v''
                     [AError ''redis'']))))"

text \<open>
  The URL the forwarder builds: \<open>PROXY_URL + in.Url\<close> parsed, the \<open>key\<close> parameter deleted
  and set, the query encoded again.
\<close>

definition rebuilt_query :: "URL \<Rightarrow> string \<Rightarrow> Values" where
  "rebuilt_query parse apiKey =
     (let query = ParseQuery (RawQuery parse);
          query = Values_Del query ''key'';
          query = Values_Set query ''key'' apiKey
      in query)"

definition rebuilt_url :: "URL \<Rightarrow> string \<Rightarrow> string" where
  "rebuilt_url parse apiKey =
     URL_String (parse\<lparr>RawQuery := Encode (rebuilt_query parse apiKey)\<rparr>)"

definition isToken :: "string \<Rightarrow> bool" where
  "isToken s \<longleftrightarrow> s \<noteq> [] \<and> list_all validHeaderFieldByte s"

text \<open>\<open>removeEmptyPort\<close>: a host that ends in a colon after its last bracket loses it.\<close>

definition removeEmptyPort :: "string \<Rightarrow> string" where
  "removeEmptyPort host =
     (if LastIndex host (CHR '':'') > LastIndex host (CHR '']'') \<and> host \<noteq> [] \<and>
         last host = CHR '':''
      then butlast host else host)"

definition NewRequest ::
  "externals \<Rightarrow> string \<Rightarrow> string \<Rightarrow> string \<Rightarrow> string + http_request" where
  "NewRequest ext method' url body =
     (let m = (if method' = '''' then ''GET'' else method') in
      if \<not> isToken m then Inl (method_error_text ext m)
      else
        (case Parse url of
           Inl e \<Rightarrow> Inl (parse_error_text ext url e)
         | Inr u \<Rightarrow>
             Inr \<lparr>rq_Method = m, rq_URL = u\<lparr>Host := removeEmptyPort (Host u)\<rparr>,
                  rq_Header = [], rq_Body = body\<rparr>))"

text \<open>The request's headers: the content type, then every inbound header but two.\<close>

definition copy_headers :: "Header \<Rightarrow> Header \<Rightarrow> Header" where
  "copy_headers hdr inbound =
     foldl (\<lambda>h (key, vals).
              if key \<noteq> ''Content-Type'' \<and> key \<noteq> ''Host''
              then foldl (\<lambda>h' v. Header_Add h' key v) h vals
              else h)
       hdr inbound"

definition SendToGemini ::
  "externals \<Rightarrow> SendToGeminiInput \<Rightarrow> world \<Rightarrow>
     (http_panic + send_error + GeminiResponse) \<times> world" where
  "SendToGemini ext inp w =
     (let fullUrl = PROXY_URL @ Url inp in
      case getAPIKey inp w of
        (Inl p, w1) \<Rightarrow> (Inl p, w1)
      | (Inr apiKey, w1) \<Rightarrow>
          (case Parse fullUrl of
             Inl e \<Rightarrow> (Inr (Inl (CouldNotParseUrl (parse_error_text ext fullUrl e))), w1)
           | Inr parse \<Rightarrow>
               let fullUrl = rebuilt_url parse apiKey in
               if length apiKey < 8 then (Inr (Inl (InvalidApiKey apiKey)), w1)
               else
                 let w2 = log_Info w1 ''using api key: %s'' [AString (maskAPIKey apiKey)];
                     w3 = log_Info w2 ''Final request URL: %s'' [AString fullUrl]
                 in
                 (case NewRequest ext (Method inp) fullUrl (Payload inp) of
                    Inl m \<Rightarrow>
                      (Inr (Inl (CouldNotCreateRequest m)),
                       log_Error w3 ''Failed to create request: %v'' [AError m])
                  | Inr req \<Rightarrow>
                      let h1 = (if ContentType inp \<noteq> ''''
                                then Header_Set (rq_Header req) ''Content-Type'' (ContentType inp)
                                else rq_Header req);
                          req' = req\<lparr>rq_Header := copy_headers h1 (Headers inp)\<rparr>;
                          w3 = w3\<lparr>sent := sent w3 @ [req']\<rparr>
                      in
                      (case roundtrip ext req' of
                         TransportError m \<Rightarrow>
                           (Inr (Inl (CouldNotSendRequest m)),
                            log_Error w3 ''HTTP request failed: %v'' [AError m])
                       | Reply code hdr body \<Rightarrow>
                           let w4 = log_Info w3 ''Response status code: %d'' [AInt code] in
                           (case body of
                              Inl m \<Rightarrow>
                                (Inr (Inl (CouldNotReadBody m)),
                                 log_Error w4 ''Failed to read response body: %v'' [AError m])
                            | Inr bytes \<Rightarrow>
                                (Inr (Inr \<lparr>resp_Body = bytes, StatusCode = code,
                                           resp_Headers = hdr\<rparr>), w4))))))"

section \<open>The request handler (api/index.go)\<close>

record Request =
  req_Method :: string
  URL_Path :: string
  URL_RawQuery :: string
  req_Header :: Header
  req_Body :: string

definition getFromQuery :: "Request \<Rightarrow> string \<Rightarrow> string \<Rightarrow> string" where
  "getFromQuery r key defaultV =
     (let v = Values_Get (ParseQuery (URL_RawQuery r)) key in
      if v = '''' then defaultV else v)"

definition logHeaders :: "Header \<Rightarrow> (string \<times> string) list" where
  "logHeaders headers =
     concat (map (\<lambda>(name, vals). case vals of [] \<Rightarrow> [] | v # vs \<Rightarrow> [(name, v)]) headers)"

text \<open>
  \<open>doStdResponse\<close>: two headers, then \<open>fmt.Fprintf(w, string(marshal))\<close>. It never calls
  \<open>WriteHeader\<close>. The trace identifier is the one \<open>getCtx\<close> put into the context.
\<close>

definition doStdResponse :: "string \<Rightarrow> world \<Rightarrow> Response \<Rightarrow> world" where
  "doStdResponse traceId w resp =
     (let marshal = json_Marshal resp;
          h1 = Header_Set (rw_header (rw w)) ''X-Trace-Id'' traceId;
          h2 = Header_Set h1 ''X-Content-From'' ''agent''
      in w\<lparr>rw := body_call ((rw w)\<lparr>rw_header := h2\<rparr>) (Formatted marshal)\<rparr>)"

text \<open>
  \<open>doGeminiResponse\<close>: the two headers are set, every upstream header value is added,
  \<open>Content-Type\<close> is set when \<open>Get\<close> finds none, then the status and the body are written.
\<close>

definition add_all :: "Header \<Rightarrow> Header \<Rightarrow> Header" where
  "add_all hdr upstream =
     foldl (\<lambda>h (key, vals). foldl (\<lambda>h' v. Header_Add h' key v) h vals) hdr upstream"

definition relay_headers :: "string \<Rightarrow> Header \<Rightarrow> Header \<Rightarrow> Header" where
  "relay_headers traceId hdr upstream =
     (let h1 = Header_Set hdr ''X-Trace-Id'' traceId;
          h2 = Header_Set h1 ''X-Content-From'' ''gemini'';
          h3 = add_all h2 upstream
      in if Header_Get h3 ''Content-Type'' = ''''
         then Header_Set h3 ''Content-Type'' ''application/json''
         else h3)"

definition doGeminiResponse ::
  "string \<Rightarrow> world \<Rightarrow> GeminiResponse \<Rightarrow> http_panic option \<times> world" where
  "doGeminiResponse traceId w resp =
     (let w1 = (rw w)\<lparr>rw_header := relay_headers traceId (rw_header (rw w)) (resp_Headers resp)\<rparr>
      in case WriteHeader w1 (StatusCode resp) of
           Inl p \<Rightarrow> (Some p, w\<lparr>rw := w1\<rparr>)
         | Inr w2 \<Rightarrow> (None, w\<lparr>rw := body_call w2 (Written (resp_Body resp))\<rparr>))"

text \<open>
  \<open>MainHandle\<close>, in three steps: the log lines about the request, the input of the
  forwarder built from the request, and the call with the response it leads to.
\<close>

definition log_request :: "Request \<Rightarrow> world \<Rightarrow> world" where
  "log_request r w =
     (let w1 = log_Info w ''Received request - Method: %s, Path: %s''
                 [AString (req_Method r), AString (URL_Path r)];
          w2 = log_Info w1 ''Request headers: %v'' [AHeaderMap (logHeaders (req_Header r))];
          w3 = log_Info w2 ''Request query parameters: %v''
                 [AValues (ParseQuery (URL_RawQuery r))];
          apiKey = getFromQuery r ''key'' ''''
      in log_Info w3 ''API Key from query: %s'' [AString (api_maskAPIKey apiKey)])"

definition build_input :: "Request \<Rightarrow> SendToGeminiInput" where
  "build_input r =
     (let apiKey = getFromQuery r ''key'' '''';
          fullPath = URL_Path r @
                     (if URL_RawQuery r \<noteq> '''' then ''?'' @ URL_RawQuery r else '''')
      in \<lparr>Url = fullPath, ContentType = Header_Get (req_Header r) ''Content-Type'',
          APIKey = apiKey, Payload = req_Body r, Method = req_Method r,
          Headers = req_Header r\<rparr>)"

definition started :: "Request \<Rightarrow> world \<Rightarrow> world" where
  "started r w =
     log_Info (log_request r w) ''start request: %s'' [AString (Url (build_input r))]"

definition MainHandle ::
  "externals \<Rightarrow> string \<Rightarrow> Request \<Rightarrow> world \<Rightarrow> http_panic option \<times> world" where
  "MainHandle ext traceId r w =
     (let inp = build_input r in
      case SendToGemini ext inp (started r w) of
        (Inl p, w6) \<Rightarrow> (Some p, w6)
      | (Inr (Inl err), w6) \<Rightarrow>
          (None,
           doStdResponse traceId
             (log_Error w6 ''send to gemini err: %v'' [AError (Error_text err)])
             \<lparr>Code = 500, Body = ''Internal server error. details: '' @ Error_text err\<rparr>)
      | (Inr (Inr geminiResp), w6) \<Rightarrow>
          doGeminiResponse traceId (log_Info w6 ''end request: %s'' [AString (Url inp)])
            geminiResp)"

section \<open>Words for the statements\<close>

text \<open>
  A record that \<open>json.Unmarshal\<close> reads as an object with a member named \<open>key\<close>, whatever
  the member's value.
\<close>

definition record_accepted :: "string \<Rightarrow> bool" where
  "record_accepted rec \<longleftrightarrow>
     (case json_decode rec of
        Some (JObject kvs, False) \<Rightarrow> ''key'' \<in> fst ` set kvs
      | _ \<Rightarrow> False)"

text \<open>Whether the \<open>i\<close>-th coming Redis command of a call fails.\<close>

definition fault_at :: "state \<Rightarrow> nat \<Rightarrow> bool" where
  "fault_at s i \<longleftrightarrow>
     (case client s of None \<Rightarrow> False | Some r \<Rightarrow> i < length (faults r) \<and> faults r ! i)"

text \<open>
  A call reaches the durable locked section when there is a client, \<open>LLEN\<close> succeeds and
  the list is not empty; it returns from the durable branch when \<open>LINDEX\<close> succeeds too
  and, in the second file, the record decodes into a \<open>map[string]string\<close>.
\<close>

definition durable_entered :: "state \<Rightarrow> bool" where
  "durable_entered s \<longleftrightarrow> client s \<noteq> None \<and> \<not> fault_at s 0 \<and> stored s \<noteq> []"

definition durable_fetched :: "state \<Rightarrow> bool" where
  "durable_fetched s \<longleftrightarrow> durable_entered s \<and> \<not> fault_at s 1"

definition durable_decoded :: "state \<Rightarrow> bool" where
  "durable_decoded s \<longleftrightarrow>
     durable_fetched s \<and>
     (case Unmarshal_strings
             (stored s ! nat ((currentPos s + 1) mod int (length (stored s)))) of
        Inl e \<Rightarrow> False | Inr m \<Rightarrow> True)"

text \<open>
  The cursor a call leaves: advanced by 1 modulo the durable length when the durable
  section ran, then advanced by 1 modulo the fallback length when the fallback section ran
  (the call did not return from the durable branch, and the fallback list is not empty).
\<close>

definition cursor_after :: "state \<Rightarrow> bool \<Rightarrow> bool \<Rightarrow> int" where
  "cursor_after s entered returned =
     (let c1 = (if entered then (currentPos s + 1) mod int (length (stored s))
                else currentPos s);
          keys = getAPIKeysFromEnv (env s)
      in if returned \<or> keys = [] then c1 else (c1 + 1) mod int (length keys))"

text \<open>The credential the fallback branch yields after the durable section ran or not.\<close>

definition fallback_key :: "state \<Rightarrow> bool \<Rightarrow> string" where
  "fallback_key s entered =
     (let c1 = (if entered then (currentPos s + 1) mod int (length (stored s))
                else currentPos s);
          keys = getAPIKeysFromEnv (env s)
      in if keys = [] then '''' else keys ! nat (c1 mod int (length keys)))"

section \<open>Example states\<close>

text \<open>An empty durable pool, every command succeeding, with a given \<open>API_KEY\<close>.\<close>

definition empty_pool_state :: "string \<Rightarrow> state" where
  "empty_pool_state keyStr =
     \<lparr>client = Some \<lparr>items = [], faults = []\<rparr>, currentPos = 0, env = plain_env keyStr\<rparr>"

text \<open>
  Three durable records and three fallback credentials, the cursor at 0: in the first
  state \<open>LLEN\<close> succeeds and \<open>LINDEX\<close> fails; in the second every command succeeds and
  the record at position 1 is not JSON.
\<close>

definition fetch_fails_state :: state where
  "fetch_fails_state =
     \<lparr>client = Some \<lparr>items = [''k0-record'', ''k1-record'', ''k2-record''],
                      faults = [False, True]\<rparr>,
      currentPos = 0, env = plain_env ''f0-secret,f1-secret,f2-secret''\<rparr>"

definition bad_record_state :: state where
  \<open>bad_record_state =
     \<lparr>client = Some \<lparr>items = [''{"key":"k0-secret"}'', ''k1-secret'', ''{"key":"k2-secret"}''],
                      faults = []\<rparr>,
      currentPos = 0, env = plain_env ''f0-secret,f1-secret,f2-secret''\<rparr>\<close>

text \<open>
  Externals for the examples: the upstream answers every request with one reply. The
  texts of the library's errors are not reached by the examples (their URLs parse and
  their methods are tokens) and are fixed strings here.
\<close>

definition fixed_externals :: "upstream_reply \<Rightarrow> externals" where
  "fixed_externals reply =
     \<lparr>roundtrip = (\<lambda>req. reply), parse_error_text = (\<lambda>u e. ''parse error''),
      method_error_text = (\<lambda>m. ''invalid method'')\<rparr>"

text \<open>A request served from a fresh response writer and an empty log.\<close>

definition start_world :: "state \<Rightarrow> world" where
  "start_world s = \<lparr>sel = s, logs = [], sent = [], rw = new_writer\<rparr>"

definition get_request :: "string \<Rightarrow> string \<Rightarrow> Request" where
  "get_request path query =
     \<lparr>req_Method = ''GET'', URL_Path = path, URL_RawQuery = query,
      req_Header = [(''Accept'', [''*/*'']), (''Host'', [''proxy.local''])], req_Body = ''''\<rparr>"

text \<open>A status that \<open>WriteHeader\<close> takes as the final one.\<close>

definition final_status :: "int \<Rightarrow> bool" where
  "final_status code \<longleftrightarrow> code = 101 \<or> (200 \<le> code \<and> code \<le> 999)"

text \<open>
  The values the relay leaves under a header name, from the upstream header map walked
  in any order: the proxy's own value for its two names, then every upstream value whose
  name has this canonical form; and \<open>application/json\<close> for \<open>Content-Type\<close> when the
  first of these values is missing or empty.
\<close>

definition upstream_values :: "Header \<Rightarrow> string \<Rightarrow> string list" where
  "upstream_values upstream k =
     concat (map snd (filter (\<lambda>(k', vals). CanonicalMIMEHeaderKey k' = k) upstream))"

definition relayed_values :: "string \<Rightarrow> Header \<Rightarrow> string \<Rightarrow> string list" where
  "relayed_values traceId upstream k =
     (let own = (if k = ''X-Trace-Id'' then [traceId]
                 else if k = ''X-Content-From'' then [''gemini''] else []);
          merged = own @ upstream_values upstream k
      in if k = ''Content-Type'' \<and> (case upstream_values upstream ''Content-Type'' of
                                        [] \<Rightarrow> True | v # vs \<Rightarrow> v = '''')
         then [''application/json'']
         else merged)"

text \<open>No durable backing (the nil client), the cursor at 0, with a given \<open>API_KEY\<close>.\<close>

definition unavailable_state :: "string \<Rightarrow> state" where
  "unavailable_state keyStr = \<lparr>client = None, currentPos = 0, env = plain_env keyStr\<rparr>"


text \<open>
  The pairs \<open>Encode\<close> writes, in its order: the names sorted, the values of a name in the
  order they were added; and one pair in its encoded form.
\<close>

definition pairs_of :: "Values \<Rightarrow> (string \<times> string) list" where
  "pairs_of v = concat (map (\<lambda>k. map (\<lambda>x. (k, x)) (Values_lookup v k)) (sort (map fst v)))"

definition enc_pair :: "string \<times> string \<Rightarrow> string" where
  "enc_pair p = QueryEscape (fst p) @ ''='' @ QueryEscape (snd p)"

text \<open>The pairs of a raw query that \<open>parseQuery\<close> keeps, in order.\<close>

definition kept_pairs :: "string \<Rightarrow> (string \<times> string) list" where
  "kept_pairs query =
     List.map_filter parse_pair (if query = [] then [] else Split (CHR ''&'') query)"

text \<open>The values the pairs kept from a raw query give a name, in order.\<close>

definition kept_values :: "string \<Rightarrow> string \<Rightarrow> string list" where
  "kept_values query n = map snd (filter (\<lambda>(n', v). n' = n) (kept_pairs query))"


text \<open>
  A forwarder input as the Go literal \<open>SendToGeminiInput{Url: url, APIKey: k, Method:
  "GET"}\<close> gives it, and the URL of the upstream base with a path and a raw query.
\<close>

definition forward_input :: "string \<Rightarrow> string \<Rightarrow> SendToGeminiInput" where
  "forward_input url k =
     \<lparr>Url = url, ContentType = '''', APIKey = k, Payload = '''', Method = ''GET'', Headers = []\<rparr>"

definition upstream_URL :: "string \<Rightarrow> string \<Rightarrow> URL" where
  "upstream_URL p q =
     \<lparr>Scheme = ''https'', Opaque = [], User = None,
      Host = ''generativelanguage.googleapis.com'', Path = p, RawPath = [], OmitHost = False,
      ForceQuery = False, RawQuery = q, Fragment = [], RawFragment = []\<rparr>"
section \<open>Facts about the rotation\<close>

lemma int_wrap_id: "- (2 ^ 63) \<le> x \<Longrightarrow> x < 2 ^ 63 \<Longrightarrow> int_wrap x = x"
  by (simp add: int_wrap_def)

lemma go_rem_nonneg: "0 \<le> a \<Longrightarrow> 0 < b \<Longrightarrow> go_rem a b = a mod b"
  by (cases "a = 0") (simp_all add: go_rem_def)

lemma next_cursor:
  assumes "cursor_ok c" "0 < n"
  shows "go_rem (int_wrap (c + 1)) n = (c + 1) mod n"
proof -
  have "int_wrap (c + 1) = c + 1"
    using assms(1) by (intro int_wrap_id) (simp_all add: cursor_ok_def max_int_def)
  then show ?thesis
    using assms by (simp add: go_rem_nonneg cursor_ok_def)
qed

lemma next_cursor_ok:
  assumes "0 < n" "n \<le> max_int"
  shows "cursor_ok (x mod n)"
proof -
  have "0 \<le> x mod n" "x mod n < n"
    using assms(1) by simp_all
  then show ?thesis
    using assms(2) by (simp add: cursor_ok_def)
qed

lemma durable_positions_eq:
  assumes "cursor_ok c" "0 < n" "n \<le> max_int"
  shows "durable_positions c n k = map (\<lambda>i. (c + 1 + int i) mod n) [0..<k]"
  using assms(1)
proof (induction k arbitrary: c)
  case 0
  then show ?case by simp
next
  case (Suc k)
  have step: "durable_section c n = ((c + 1) mod n, (c + 1) mod n)"
    using Suc.prems assms(2) by (simp add: durable_section_def next_cursor Let_def)
  have ok: "cursor_ok ((c + 1) mod n)"
    using assms(2,3) by (rule next_cursor_ok)
  have shift: "((c + 1) mod n + 1 + int i) mod n = (c + 1 + int (Suc i)) mod n" for i
  proof -
    have "((c + 1) mod n + (1 + int i)) mod n = ((c + 1) + (1 + int i)) mod n"
      by (rule mod_add_left_eq)
    then show ?thesis by (simp add: add.assoc)
  qed
  have "map (\<lambda>i. (c + 1 + int i) mod n) [0..<Suc k] =
        (c + 1) mod n # map (\<lambda>i. (c + 1 + int (Suc i)) mod n) [0..<k]"
    by (simp add: upt_conv_Cons map_Suc_upt [symmetric] del: upt_Suc)
  then show ?case
    using Suc.IH [OF ok] step by (simp add: shift del: upt_Suc)
qed

lemma fallback_positions_eq:
  assumes "cursor_ok c" "0 < n" "n \<le> max_int"
  shows "fallback_positions c n k = map (\<lambda>i. (c + int i) mod n) [0..<k]"
  using assms(1)
proof (induction k arbitrary: c)
  case 0
  then show ?case by simp
next
  case (Suc k)
  have step: "fallback_section c n = (c mod n, (c + 1) mod n)"
    using Suc.prems assms(2) by (simp add: fallback_section_def next_cursor go_rem_nonneg cursor_ok_def)
  have ok: "cursor_ok ((c + 1) mod n)"
    using assms(2,3) by (rule next_cursor_ok)
  have shift: "((c + 1) mod n + int i) mod n = (c + int (Suc i)) mod n" for i
    by (simp add: mod_simps algebra_simps)
  have "map (\<lambda>i. (c + int i) mod n) [0..<Suc k] =
        c mod n # map (\<lambda>i. (c + int (Suc i)) mod n) [0..<k]"
    by (simp add: upt_conv_Cons map_Suc_upt [symmetric] del: upt_Suc)
  then show ?case
    using Suc.IH [OF ok] step by (simp add: shift del: upt_Suc)
qed

text \<open>A full turn of the rotation, from any offset, visits every index once.\<close>

lemma turn_distinct:
  fixes d :: int
  assumes "0 < N"
  shows "distinct (map (\<lambda>i. (d + int i) mod int N) [0..<N])"
proof -
  have "inj_on (\<lambda>i. (d + int i) mod int N) {0..<N}"
  proof (rule inj_onI)
    fix i j assume ij: "i \<in> {0..<N}" "j \<in> {0..<N}"
      and eq: "(d + int i) mod int N = (d + int j) mod int N"
    from eq have "int N dvd (d + int i) - (d + int j)"
      by (simp add: mod_eq_dvd_iff)
    then have "int N dvd int i - int j" by simp
    then have "int i mod int N = int j mod int N"
      by (simp add: mod_eq_dvd_iff)
    then have "int (i mod N) = int (j mod N)"
      by (simp add: zmod_int)
    then show "i = j" using ij by simp
  qed
  then show ?thesis by (simp add: distinct_map)
qed

lemma turn_set:
  fixes d :: int
  assumes "0 < N"
  shows "set (map (\<lambda>i. (d + int i) mod int N) [0..<N]) = {0..<int N}"
proof -
  let ?ps = "map (\<lambda>i. (d + int i) mod int N) [0..<N]"
  have sub: "set ?ps \<subseteq> {0..<int N}" using assms by auto
  have "card (set ?ps) = length ?ps"
    by (rule distinct_card) (rule turn_distinct [OF assms])
  then have "card (set ?ps) = card {0..<int N}" by simp
  then show ?thesis using sub by (intro card_subset_eq) simp_all
qed

lemma durable_section_ok:
  assumes "cursor_ok c" "0 < n" "n \<le> max_int"
  shows "0 \<le> fst (durable_section c n)" "fst (durable_section c n) < n"
    "cursor_ok (snd (durable_section c n))"
  using assms next_cursor_ok [of n "c + 1"]
  by (simp_all add: durable_section_def Let_def next_cursor)

lemma fallback_section_ok:
  assumes "cursor_ok c" "0 < n" "n \<le> max_int"
  shows "0 \<le> fst (fallback_section c n)" "fst (fallback_section c n) < n"
    "cursor_ok (snd (fallback_section c n))"
  using assms next_cursor_ok [of n "c + 1"]
  by (simp_all add: fallback_section_def next_cursor go_rem_nonneg cursor_ok_def)

lemma next_fault_none: "faults r = [] \<Longrightarrow> next_fault r = (False, r)"
  by (simp add: next_fault_def)

lemma GetAPIKey_durable:
  assumes "client s = Some r" "faults r = []" "items r \<noteq> []"
    and "cursor_ok (currentPos s)" "int (length (items r)) \<le> max_int"
  shows "GetAPIKey s =
           (Inr (items r ! nat (fst (durable_section (currentPos s) (int (length (items r))))), None),
            s\<lparr>currentPos := snd (durable_section (currentPos s) (int (length (items r))))\<rparr>)"
proof -
  let ?n = "int (length (items r))"
  let ?d = "durable_section (currentPos s) ?n"
  have n: "0 < ?n" using assms(3) by simp
  have llen: "LLen r = (Inr ?n, r)"
    using assms(2) by (simp add: LLen_def next_fault_none)
  have lindex: "LIndex r (fst ?d) = (Inr (items r ! nat (fst ?d)), r)"
    using assms(2) durable_section_ok(1,2) [OF assms(4) n assms(5)]
    by (simp add: LIndex_def next_fault_none)
  have same: "s\<lparr>client := Some r, currentPos := x\<rparr> = s\<lparr>currentPos := x\<rparr>" for x
    using assms(1) by (cases s) simp
  show ?thesis
    using assms(1) n llen lindex
    by (simp add: GetAPIKey_def same split_beta)
qed

lemma getFallbackAPIKey_ok:
  assumes "getAPIKeysFromEnv (env s) = keys" "keys \<noteq> []"
    and "cursor_ok (currentPos s)" "int (length keys) \<le> max_int"
  shows "getFallbackAPIKey s =
           (Inr (keys ! nat (fst (fallback_section (currentPos s) (int (length keys))))),
            s\<lparr>currentPos := snd (fallback_section (currentPos s) (int (length keys)))\<rparr>)"
proof -
  let ?n = "int (length keys)"
  have n: "0 < ?n" using assms(2) by simp
  show ?thesis
    using assms(1,2) fallback_section_ok(1,2) [OF assms(3) n assms(4)]
    by (simp add: getFallbackAPIKey_def index_def split_beta)
qed

lemma GetAPIKey_calls_durable:
  assumes "client s = Some r" "faults r = []" "items r \<noteq> []"
    and "cursor_ok (currentPos s)" "int (length (items r)) \<le> max_int"
  shows "fst (GetAPIKey_calls k s) =
           map (\<lambda>p. Inr (items r ! nat p, None))
             (durable_positions (currentPos s) (int (length (items r))) k)"
  using assms(1,4)
proof (induction k arbitrary: s)
  case 0
  then show ?case by simp
next
  case (Suc k)
  let ?n = "int (length (items r))"
  let ?s' = "s\<lparr>currentPos := snd (durable_section (currentPos s) ?n)\<rparr>"
  have n: "0 < ?n" using assms(3) by simp
  have one: "GetAPIKey s =
      (Inr (items r ! nat (fst (durable_section (currentPos s) ?n)), None), ?s')"
    using Suc.prems(1) assms(2,3) Suc.prems(2) assms(5) by (rule GetAPIKey_durable)
  have "fst (GetAPIKey_calls k ?s') =
      map (\<lambda>p. Inr (items r ! nat p, None)) (durable_positions (currentPos ?s') ?n k)"
    using Suc.prems durable_section_ok(3) [OF Suc.prems(2) n assms(5)]
    by (intro Suc.IH) simp_all
  then show ?case
    using one by (simp add: split_beta)
qed

lemma getFallbackAPIKey_calls_ok:
  assumes "getAPIKeysFromEnv (env s) = keys" "keys \<noteq> []"
    and "cursor_ok (currentPos s)" "int (length keys) \<le> max_int"
  shows "fst (getFallbackAPIKey_calls k s) =
           map (\<lambda>p. Inr (keys ! nat p))
             (fallback_positions (currentPos s) (int (length keys)) k)"
  using assms(1,3)
proof (induction k arbitrary: s)
  case 0
  then show ?case by simp
next
  case (Suc k)
  let ?n = "int (length keys)"
  let ?s' = "s\<lparr>currentPos := snd (fallback_section (currentPos s) ?n)\<rparr>"
  have n: "0 < ?n" using assms(2) by simp
  have one: "getFallbackAPIKey s =
      (Inr (keys ! nat (fst (fallback_section (currentPos s) ?n))), ?s')"
    using Suc.prems(1) assms(2) Suc.prems(2) assms(4) by (rule getFallbackAPIKey_ok)
  have "fst (getFallbackAPIKey_calls k ?s') =
      map (\<lambda>p. Inr (keys ! nat p)) (fallback_positions (currentPos ?s') ?n k)"
    using Suc.prems fallback_section_ok(3) [OF Suc.prems(2) n assms(4)]
    by (intro Suc.IH) simp_all
  then show ?case
    using one by (simp add: split_beta)
qed

lemma turn_properties:
  fixes d :: int
  assumes "0 < N" and "ps = map (\<lambda>i. (d + int i) mod int N) [0..<N + 1]"
  shows "distinct (take N ps) \<and> set (take N ps) = {0..<int N} \<and> ps ! N = ps ! 0"
proof -
  have tk: "take N ps = map (\<lambda>i. (d + int i) mod int N) [0..<N]"
    unfolding assms(2) by (simp add: take_map)
  have nth: "ps ! i = (d + int i) mod int N" if "i \<le> N" for i
    unfolding assms(2) using that nth_map_upt [of i "N + 1" 0 "\<lambda>i. (d + int i) mod int N"]
    by simp
  have "ps ! N = ps ! 0"
    by (simp add: nth)
  then show ?thesis
    using turn_distinct [OF assms(1), of d] turn_set [OF assms(1), of d] tk by simp
qed

section \<open>Facts about the store and the initialization\<close>

lemma next_fault_items [simp]: "items (snd (next_fault r)) = items r"
  by (simp add: next_fault_def split: list.splits)

lemma LLen_items [simp]: "items (snd (LLen r)) = items r"
  by (simp add: LLen_def split_beta)

lemma LLen_count: "fst (LLen r) = Inr n \<Longrightarrow> n = int (length (items r))"
  by (auto simp: LLen_def split_beta split: if_splits)

lemma LIndex_items [simp]: "items (snd (LIndex r i)) = items r"
  by (simp add: LIndex_def split_beta Let_def)

lemma Initialize_stored:
  assumes "stored s \<noteq> []"
  shows "stored (snd (InitializeAPIKeys s)) = stored s"
    and "currentPos (snd (InitializeAPIKeys s)) = currentPos s"
    and "env (snd (InitializeAPIKeys s)) = env s"
proof -
  obtain r where r: "client s = Some r" "items r \<noteq> []"
    using assms by (auto simp: stored_def split: option.splits)
  obtain res r1 where l: "LLen r = (res, r1)" by (cases "LLen r")
  have r1: "items r1 = items r" using LLen_items [of r] l by simp
  have pos: "res = Inr n \<Longrightarrow> 0 < n" for n
    using LLen_count [of r n] l r(2) by simp
  show "stored (snd (InitializeAPIKeys s)) = stored s"
    using r l r1 pos by (auto simp: InitializeAPIKeys_def stored_def split: sum.splits)
  show "currentPos (snd (InitializeAPIKeys s)) = currentPos s"
    using r l r1 pos by (auto simp: InitializeAPIKeys_def split: sum.splits)
  show "env (snd (InitializeAPIKeys s)) = env s"
    using r l r1 pos by (auto simp: InitializeAPIKeys_def split: sum.splits)
qed

lemma Initialize_json_stored:
  assumes "stored s \<noteq> []"
  shows "stored (snd (InitializeAPIKeys_json s)) = stored s"
    and "currentPos (snd (InitializeAPIKeys_json s)) = currentPos s"
    and "env (snd (InitializeAPIKeys_json s)) = env s"
proof -
  obtain r where r: "client s = Some r" "items r \<noteq> []"
    using assms by (auto simp: stored_def split: option.splits)
  obtain res r1 where l: "LLen r = (res, r1)" by (cases "LLen r")
  have r1: "items r1 = items r" using LLen_items [of r] l by simp
  have pos: "res = Inr n \<Longrightarrow> 0 < n" for n
    using LLen_count [of r n] l r(2) by simp
  show "stored (snd (InitializeAPIKeys_json s)) = stored s"
    using r l r1 pos by (auto simp: InitializeAPIKeys_json_def stored_def split: sum.splits)
  show "currentPos (snd (InitializeAPIKeys_json s)) = currentPos s"
    using r l r1 pos by (auto simp: InitializeAPIKeys_json_def split: sum.splits)
  show "env (snd (InitializeAPIKeys_json s)) = env s"
    using r l r1 pos by (auto simp: InitializeAPIKeys_json_def split: sum.splits)
qed


lemma accepted_iff:
  "record_accepted rec \<longleftrightarrow> (case Unmarshal_any rec of Inl e \<Rightarrow> False | Inr m \<Rightarrow> m ''key'' \<noteq> None)"
proof -
  have "map_of (rev kvs) k \<noteq> None \<longleftrightarrow> k \<in> fst ` set kvs" for kvs :: "(string \<times> json) list" and k
    by (simp add: map_of_eq_None_iff)
  then show ?thesis
    by (auto simp: record_accepted_def Unmarshal_any_def split: option.splits json.splits bool.splits)
qed

lemma push_records_clean:
  assumes "faults r = []"
  shows "push_records r keys = (None, r\<lparr>items := items r @ filter record_accepted keys\<rparr>)"
  using assms
proof (induction keys arbitrary: r)
  case Nil
  then show ?case by simp
next
  case (Cons key keys)
  show ?case
  proof (cases "record_accepted key")
    case True
    then obtain m v where m: "Unmarshal_any key = Inr m" "m ''key'' = Some v"
      by (auto simp: accepted_iff split: sum.splits)
    have push: "RPush r key = (Inr (int (length (items r)) + 1), r\<lparr>items := items r @ [key]\<rparr>)"
      using Cons.prems by (simp add: RPush_def next_fault_def)
    have "faults (r\<lparr>items := items r @ [key]\<rparr>) = []"
      using Cons.prems by simp
    from Cons.IH [OF this] show ?thesis
      using True m push by simp
  next
    case False
    then have "(case Unmarshal_any key of Inl e \<Rightarrow> push_records r keys
        | Inr keyData \<Rightarrow> if keyData ''key'' = None then push_records r keys
            else (case RPush r key of (Inl err, r') \<Rightarrow> (Some err, r')
                   | (Inr n, r') \<Rightarrow> push_records r' keys)) = push_records r keys"
      by (auto simp: accepted_iff split: sum.splits)
    then show ?thesis
      using False Cons.IH [OF Cons.prems] by simp
  qed
qed

lemma push_records_only_accepted:
  "\<exists>ws. items (snd (push_records r keys)) = items r @ ws \<and>
        set ws \<subseteq> {k \<in> set keys. record_accepted k}"
proof (induction keys arbitrary: r)
  case Nil
  then show ?case by simp
next
  case (Cons key keys)
  show ?case
  proof (cases "record_accepted key")
    case False
    then have "push_records r (key # keys) = push_records r keys"
      by (auto simp: accepted_iff split: sum.splits)
    then show ?thesis using Cons.IH [of r] by auto
  next
    case True
    then obtain m v where m: "Unmarshal_any key = Inr m" "m ''key'' = Some v"
      by (auto simp: accepted_iff split: sum.splits)
    obtain res r' where p: "RPush r key = (res, r')" by (cases "RPush r key")
    show ?thesis
    proof (cases res)
      case (Inl e)
      then have "items r' = items r"
        using p by (auto simp: RPush_def split_beta split: if_splits)
      then show ?thesis using m p Inl by simp
    next
      case (Inr k)
      then have r': "items r' = items r @ [key]"
        using p by (auto simp: RPush_def split_beta split: if_splits)
      obtain ws where "items (snd (push_records r' keys)) = items r' @ ws"
        "set ws \<subseteq> {k \<in> set keys. record_accepted k}"
        using Cons.IH [of r'] by blast
      then have "items (snd (push_records r (key # keys))) = items r @ (key # ws) \<and>
          set (key # ws) \<subseteq> {k \<in> set (key # keys). record_accepted k}"
        using m p Inr r' True by auto
      then show ?thesis by blast
    qed
  qed
qed


section \<open>What a selection call returns and where it leaves the cursor\<close>


lemma getFallbackAPIKey_result:
  assumes "cursor_ok (currentPos s)" "int (length (getAPIKeysFromEnv (env s))) \<le> max_int"
  shows "fst (getFallbackAPIKey s) =
           Inr (if getAPIKeysFromEnv (env s) = [] then '''' else getAPIKeysFromEnv (env s) ! nat (currentPos s mod int (length (getAPIKeysFromEnv (env s)))))"
    and "currentPos (snd (getFallbackAPIKey s)) =
           (if getAPIKeysFromEnv (env s) = [] then currentPos s else (currentPos s + 1) mod int (length (getAPIKeysFromEnv (env s))))"
proof -
  let ?keys = "getAPIKeysFromEnv (env s)"
  show "fst (getFallbackAPIKey s) =
           Inr (if ?keys = [] then '''' else ?keys ! nat (currentPos s mod int (length (?keys))))"
  proof (cases "?keys = []")
    case True
    then show ?thesis by (simp add: getFallbackAPIKey_def)
  next
    case False
    then show ?thesis
      using getFallbackAPIKey_ok [OF refl False assms]
      by (simp add: fallback_section_def go_rem_nonneg Let_def assms(1) [unfolded cursor_ok_def])
  qed
  show "currentPos (snd (getFallbackAPIKey s)) =
           (if ?keys = [] then currentPos s else (currentPos s + 1) mod int (length (?keys)))"
  proof (cases "?keys = []")
    case True
    then show ?thesis by (simp add: getFallbackAPIKey_def)
  next
    case False
    then show ?thesis
      using getFallbackAPIKey_ok [OF refl False assms]
      by (simp add: fallback_section_def next_cursor Let_def assms(1))
  qed
qed

lemma fallback_result_at:
  assumes "cursor_ok (currentPos s')" "env s' = env s"
    and "int (length (getAPIKeysFromEnv (env s))) \<le> max_int"
  shows "fst (fallback_result s') =
           Inr (if getAPIKeysFromEnv (env s) = [] then '''' else getAPIKeysFromEnv (env s) ! nat (currentPos s' mod int (length (getAPIKeysFromEnv (env s)))), None)"
    and "currentPos (snd (fallback_result s')) =
           (if getAPIKeysFromEnv (env s) = [] then currentPos s' else (currentPos s' + 1) mod int (length (getAPIKeysFromEnv (env s))))"
proof -
  obtain k s'' where g: "getFallbackAPIKey s' = (Inr k, s'')"
    using getFallbackAPIKey_result(1) [of s'] assms by (cases "getFallbackAPIKey s'") auto
  show "fst (fallback_result s') =
           Inr (if getAPIKeysFromEnv (env s) = [] then '''' else getAPIKeysFromEnv (env s) ! nat (currentPos s' mod int (length (getAPIKeysFromEnv (env s)))), None)"
    using getFallbackAPIKey_result(1) [of s'] assms g by (simp add: fallback_result_def Let_def)
  show "currentPos (snd (fallback_result s')) =
           (if getAPIKeysFromEnv (env s) = [] then currentPos s' else (currentPos s' + 1) mod int (length (getAPIKeysFromEnv (env s))))"
    using getFallbackAPIKey_result(2) [of s'] assms g by (simp add: fallback_result_def Let_def)
qed


lemma LLen_eq:
  "LLen r = (if fst (next_fault r) then Inl RedisIOError else Inr (int (length (items r))),
             snd (next_fault r))"
  by (simp add: LLen_def split_beta)

lemma LIndex_eq:
  assumes "0 \<le> i" "i < int (length (items r))"
  shows "LIndex r i = (if fst (next_fault r) then Inl RedisIOError else Inr (items r ! nat i),
                       snd (next_fault r))"
  using assms by (simp add: LIndex_def split_beta Let_def)

lemma fault_at_next:
  assumes "client s = Some r"
  shows "fault_at s 0 = fst (next_fault r)"
    and "fault_at s 1 = fst (next_fault (snd (next_fault r)))"
  using assms
  by (auto simp: fault_at_def next_fault_def split: list.splits)

lemma GetAPIKey_unfold:
  assumes "client s = Some r" "cursor_ok (currentPos s)" "int (length (items r)) \<le> max_int"
  shows "GetAPIKey s =
     (let N = int (length (items r)); c1 = (currentPos s + 1) mod N;
          r1 = snd (next_fault r); r2 = snd (next_fault r1)
      in if fst (next_fault r) \<or> items r = [] then fallback_result (s\<lparr>client := Some r1\<rparr>)
         else if fst (next_fault r1)
           then fallback_result (s\<lparr>client := Some r2, currentPos := c1\<rparr>)
         else (Inr (items r ! nat c1, None), s\<lparr>client := Some r2, currentPos := c1\<rparr>))"
proof (cases "fst (next_fault r) \<or> items r = []")
  case True
  then show ?thesis
    using assms(1) by (auto simp: GetAPIKey_def LLen_eq Let_def)
next
  case False
  let ?N = "int (length (items r))"
  let ?r1 = "snd (next_fault r)"
  have N: "0 < ?N" using False by simp
  have sec: "durable_section (currentPos s) ?N = ((currentPos s + 1) mod ?N, (currentPos s + 1) mod ?N)"
    using assms(2) N by (simp add: durable_section_def next_cursor Let_def)
  have rng: "0 \<le> (currentPos s + 1) mod ?N" "(currentPos s + 1) mod ?N < int (length (items ?r1))"
    using N by simp_all
  show ?thesis
    using assms(1) False sec LIndex_eq [OF rng]
    by (simp add: GetAPIKey_def LLen_eq Let_def)
qed

lemma GetAPIKey_json_unfold:
  assumes "client s = Some r" "cursor_ok (currentPos s)" "int (length (items r)) \<le> max_int"
  shows "GetAPIKey_json s =
     (let N = int (length (items r)); c1 = (currentPos s + 1) mod N;
          r1 = snd (next_fault r); r2 = snd (next_fault r1)
      in if fst (next_fault r) \<or> items r = [] then fallback_result_json (s\<lparr>client := Some r1\<rparr>)
         else if fst (next_fault r1)
           then fallback_result_json (s\<lparr>client := Some r2, currentPos := c1\<rparr>)
         else (case Unmarshal_strings (items r ! nat c1) of
                 Inl err \<Rightarrow> fallback_result_json (s\<lparr>client := Some r2, currentPos := c1\<rparr>)
               | Inr keyData \<Rightarrow>
                   (Inr (map_string keyData ''key'', map_string keyData ''proxy'', None),
                    s\<lparr>client := Some r2, currentPos := c1\<rparr>)))"
proof (cases "fst (next_fault r) \<or> items r = []")
  case True
  then show ?thesis
    using assms(1) by (auto simp: GetAPIKey_json_def LLen_eq Let_def)
next
  case False
  let ?N = "int (length (items r))"
  let ?r1 = "snd (next_fault r)"
  have N: "0 < ?N" using False by simp
  have sec: "durable_section (currentPos s) ?N = ((currentPos s + 1) mod ?N, (currentPos s + 1) mod ?N)"
    using assms(2) N by (simp add: durable_section_def next_cursor Let_def)
  have rng: "0 \<le> (currentPos s + 1) mod ?N" "(currentPos s + 1) mod ?N < int (length (items ?r1))"
    using N by simp_all
  show ?thesis
    using assms(1) False sec LIndex_eq [OF rng]
    by (simp add: GetAPIKey_json_def LLen_eq Let_def)
qed

lemma fallback_result_json_at:
  assumes "cursor_ok (currentPos s')" "env s' = env s"
    and "int (length (getAPIKeysFromEnv (env s))) \<le> max_int"
  shows "fst (fallback_result_json s') =
           Inr (if getAPIKeysFromEnv (env s) = [] then '''' else getAPIKeysFromEnv (env s) ! nat (currentPos s' mod int (length (getAPIKeysFromEnv (env s)))),
                '''', None)"
    and "currentPos (snd (fallback_result_json s')) =
           (if getAPIKeysFromEnv (env s) = [] then currentPos s' else (currentPos s' + 1) mod int (length (getAPIKeysFromEnv (env s))))"
proof -
  obtain k s'' where g: "getFallbackAPIKey s' = (Inr k, s'')"
    using getFallbackAPIKey_result(1) [of s'] assms by (cases "getFallbackAPIKey s'") auto
  show "fst (fallback_result_json s') =
           Inr (if getAPIKeysFromEnv (env s) = [] then '''' else getAPIKeysFromEnv (env s) ! nat (currentPos s' mod int (length (getAPIKeysFromEnv (env s)))),
                '''', None)"
    using getFallbackAPIKey_result(1) [of s'] assms g
    by (simp add: fallback_result_json_def Let_def)
  show "currentPos (snd (fallback_result_json s')) =
           (if getAPIKeysFromEnv (env s) = [] then currentPos s' else (currentPos s' + 1) mod int (length (getAPIKeysFromEnv (env s))))"
    using getFallbackAPIKey_result(2) [of s'] assms g
    by (simp add: fallback_result_json_def Let_def)
qed

lemma GetAPIKey_result:
  assumes "state_ok s"
  shows "fst (GetAPIKey s) =
           Inr (if durable_fetched s
                then stored s ! nat ((currentPos s + 1) mod int (length (stored s)))
                else fallback_key s (durable_entered s), None)"
    and "currentPos (snd (GetAPIKey s)) = cursor_after s (durable_entered s) (durable_fetched s)"
proof -
  have c: "cursor_ok (currentPos s)" and M: "int (length (getAPIKeysFromEnv (env s))) \<le> max_int"
    and Nb: "int (length (stored s)) \<le> max_int"
    using assms by (simp_all add: state_ok_def)
  have "fst (GetAPIKey s) =
           Inr (if durable_fetched s
                then stored s ! nat ((currentPos s + 1) mod int (length (stored s)))
                else fallback_key s (durable_entered s), None) \<and>
        currentPos (snd (GetAPIKey s)) = cursor_after s (durable_entered s) (durable_fetched s)"
  proof (cases "client s")
    case None
    then have no: "\<not> durable_entered s" "\<not> durable_fetched s"
      by (simp_all add: durable_entered_def durable_fetched_def)
    show ?thesis
      using None no fallback_result_at [OF c refl M]
      by (simp add: GetAPIKey_def fallback_key_def cursor_after_def Let_def)
  next
    case (Some r)
    let ?N = "int (length (items r))"
    let ?c1 = "(currentPos s + 1) mod ?N"
    let ?r1 = "snd (next_fault r)"
    let ?r2 = "snd (next_fault ?r1)"
    have st: "stored s = items r" using Some by (simp add: stored_def)
    have Nr: "?N \<le> max_int" using Nb st by simp
    note unf = GetAPIKey_unfold [OF Some c Nr]
    have ent: "durable_entered s \<longleftrightarrow> \<not> (fst (next_fault r) \<or> items r = [])"
      using Some fault_at_next(1) [OF Some] st by (auto simp: durable_entered_def)
    have fet: "durable_fetched s \<longleftrightarrow> durable_entered s \<and> \<not> fst (next_fault ?r1)"
      using fault_at_next(2) [OF Some] by (simp add: durable_fetched_def)
    show ?thesis
    proof (cases "durable_entered s")
      case False
      have f: "fst (fallback_result (s\<lparr>client := Some ?r1\<rparr>)) =
                 Inr (if getAPIKeysFromEnv (env s) = [] then '''' else getAPIKeysFromEnv (env s) ! nat (currentPos s mod int (length (getAPIKeysFromEnv (env s)))), None)"
        "currentPos (snd (fallback_result (s\<lparr>client := Some ?r1\<rparr>))) =
           (if getAPIKeysFromEnv (env s) = [] then currentPos s else (currentPos s + 1) mod int (length (getAPIKeysFromEnv (env s))))"
        using fallback_result_at [of "s\<lparr>client := Some ?r1\<rparr>" s] c M by simp_all
      show ?thesis
        using False ent fet unf f
        by (simp add: fallback_key_def cursor_after_def Let_def)
    next
      case True
      then have N: "0 < ?N" using ent by simp
      have c1: "cursor_ok ?c1" using N Nr by (rule next_cursor_ok)
      show ?thesis
      proof (cases "durable_fetched s")
        case False
        have f: "fst (fallback_result (s\<lparr>client := Some ?r2, currentPos := ?c1\<rparr>)) =
                 Inr (if getAPIKeysFromEnv (env s) = [] then '''' else getAPIKeysFromEnv (env s) ! nat (?c1 mod int (length (getAPIKeysFromEnv (env s)))), None)"
          "currentPos (snd (fallback_result (s\<lparr>client := Some ?r2, currentPos := ?c1\<rparr>))) =
             (if getAPIKeysFromEnv (env s) = [] then ?c1 else (?c1 + 1) mod int (length (getAPIKeysFromEnv (env s))))"
          using fallback_result_at [of "s\<lparr>client := Some ?r2, currentPos := ?c1\<rparr>" s] c1 M
          by simp_all
        show ?thesis
          using True False ent fet unf f st
          by (simp add: fallback_key_def cursor_after_def Let_def)
      next
        case fetched: True
        show ?thesis
          using True fetched ent fet unf st
          by (simp add: cursor_after_def Let_def)
      qed
    qed
  qed
  then show "fst (GetAPIKey s) =
           Inr (if durable_fetched s
                then stored s ! nat ((currentPos s + 1) mod int (length (stored s)))
                else fallback_key s (durable_entered s), None)"
    and "currentPos (snd (GetAPIKey s)) = cursor_after s (durable_entered s) (durable_fetched s)"
    by simp_all
qed

lemma GetAPIKey_json_result:
  assumes "state_ok s"
  shows "\<exists>k p. fst (GetAPIKey_json s) = Inr (k, p, None) \<and>
           (\<not> durable_decoded s \<longrightarrow> k = fallback_key s (durable_entered s) \<and> p = '''')"
    and "currentPos (snd (GetAPIKey_json s)) =
           cursor_after s (durable_entered s) (durable_decoded s)"
proof -
  have c: "cursor_ok (currentPos s)" and M: "int (length (getAPIKeysFromEnv (env s))) \<le> max_int"
    and Nb: "int (length (stored s)) \<le> max_int"
    using assms by (simp_all add: state_ok_def)
  have "(\<exists>k p. fst (GetAPIKey_json s) = Inr (k, p, None) \<and>
           (\<not> durable_decoded s \<longrightarrow> k = fallback_key s (durable_entered s) \<and> p = '''')) \<and>
        currentPos (snd (GetAPIKey_json s)) =
           cursor_after s (durable_entered s) (durable_decoded s)"
  proof (cases "client s")
    case None
    then have no: "\<not> durable_entered s" "\<not> durable_decoded s"
      by (simp_all add: durable_entered_def durable_fetched_def durable_decoded_def)
    show ?thesis
      using None no fallback_result_json_at [OF c refl M]
      by (simp add: GetAPIKey_json_def fallback_key_def cursor_after_def Let_def)
  next
    case (Some r)
    let ?N = "int (length (items r))"
    let ?c1 = "(currentPos s + 1) mod ?N"
    let ?r1 = "snd (next_fault r)"
    let ?r2 = "snd (next_fault ?r1)"
    have st: "stored s = items r" using Some by (simp add: stored_def)
    have Nr: "?N \<le> max_int" using Nb st by simp
    note unf = GetAPIKey_json_unfold [OF Some c Nr]
    have ent: "durable_entered s \<longleftrightarrow> \<not> (fst (next_fault r) \<or> items r = [])"
      using Some fault_at_next(1) [OF Some] st by (auto simp: durable_entered_def)
    have fet: "durable_fetched s \<longleftrightarrow> durable_entered s \<and> \<not> fst (next_fault ?r1)"
      using fault_at_next(2) [OF Some] by (simp add: durable_fetched_def)
    show ?thesis
    proof (cases "durable_entered s")
      case False
      then have nd: "\<not> durable_decoded s"
        by (simp add: durable_decoded_def durable_fetched_def)
      have f: "fst (fallback_result_json (s\<lparr>client := Some ?r1\<rparr>)) =
                 Inr (if getAPIKeysFromEnv (env s) = [] then ''''
                      else getAPIKeysFromEnv (env s) !
                        nat (currentPos s mod int (length (getAPIKeysFromEnv (env s)))),
                      '''', None)"
        "currentPos (snd (fallback_result_json (s\<lparr>client := Some ?r1\<rparr>))) =
           (if getAPIKeysFromEnv (env s) = [] then currentPos s
            else (currentPos s + 1) mod int (length (getAPIKeysFromEnv (env s))))"
        using fallback_result_json_at [of "s\<lparr>client := Some ?r1\<rparr>" s] c M by simp_all
      show ?thesis
        using False nd ent unf f
        by (simp add: fallback_key_def cursor_after_def Let_def)
    next
      case True
      then have N: "0 < ?N" using ent by simp
      have c1: "cursor_ok ?c1" using N Nr by (rule next_cursor_ok)
      have f: "fst (fallback_result_json (s\<lparr>client := Some ?r2, currentPos := ?c1\<rparr>)) =
               Inr (if getAPIKeysFromEnv (env s) = [] then ''''
                    else getAPIKeysFromEnv (env s) !
                      nat (?c1 mod int (length (getAPIKeysFromEnv (env s)))),
                    '''', None)"
        "currentPos (snd (fallback_result_json (s\<lparr>client := Some ?r2, currentPos := ?c1\<rparr>))) =
           (if getAPIKeysFromEnv (env s) = [] then ?c1
            else (?c1 + 1) mod int (length (getAPIKeysFromEnv (env s))))"
        using fallback_result_json_at [of "s\<lparr>client := Some ?r2, currentPos := ?c1\<rparr>" s] c1 M
        by simp_all
      show ?thesis
      proof (cases "durable_decoded s")
        case False
        then have "fst (next_fault ?r1) \<or>
            (\<exists>e. Unmarshal_strings (items r ! nat ?c1) = Inl e)"
          using True fet st by (auto simp: durable_decoded_def split: sum.splits)
        then show ?thesis
          using True False ent unf f st
          by (auto simp: fallback_key_def cursor_after_def Let_def)
      next
        case decoded: True
        then obtain m where "Unmarshal_strings (items r ! nat ?c1) = Inr m"
          "\<not> fst (next_fault ?r1)"
          using fet st by (auto simp: durable_decoded_def split: sum.splits)
        then show ?thesis
          using True decoded ent unf st
          by (simp add: cursor_after_def Let_def)
      qed
    qed
  qed
  then show "\<exists>k p. fst (GetAPIKey_json s) = Inr (k, p, None) \<and>
           (\<not> durable_decoded s \<longrightarrow> k = fallback_key s (durable_entered s) \<and> p = '''')"
    and "currentPos (snd (GetAPIKey_json s)) =
           cursor_after s (durable_entered s) (durable_decoded s)"
    by simp_all
qed


section \<open>Facts about header maps\<close>

lemma canon_names:
  "CanonicalMIMEHeaderKey ''X-Trace-Id'' = ''X-Trace-Id''"
  "CanonicalMIMEHeaderKey ''X-Content-From'' = ''X-Content-From''"
  "CanonicalMIMEHeaderKey ''Content-Type'' = ''Content-Type''"
  by code_simp+

lemma lookup_Nil: "Values_lookup [] k = []"
  by (simp add: Values_lookup_def)

lemma lookup_append:
  "Values_lookup (Values_append v k x) k' =
     (if k' = k then Values_lookup v k @ [x] else Values_lookup v k')"
proof (cases "k \<in> fst ` set v")
  case False
  then have "map_of v k = None" by (simp add: map_of_eq_None_iff)
  then show ?thesis
    using False by (auto simp: Values_lookup_def Values_append_def map_add_def split: option.splits)
next
  case True
  have "map_of (map (\<lambda>(k', vs). if k' = k then (k', vs @ [x]) else (k', vs)) v) k' =
        (if k' = k then map_option (\<lambda>vs. vs @ [x]) (map_of v k) else map_of v k')"
    by (induction v) auto
  then show ?thesis
    using True by (auto simp: Values_lookup_def Values_append_def map_of_eq_None_iff
        split: option.splits)
qed

lemma lookup_Del:
  "Values_lookup (Values_Del v k) k' = (if k' = k then [] else Values_lookup v k')"
proof -
  have "map_of (filter (\<lambda>(k', vs). k' \<noteq> k) v) k' = (if k' = k then None else map_of v k')"
    by (induction v) auto
  then show ?thesis by (simp add: Values_lookup_def Values_Del_def)
qed

lemma lookup_Set:
  "Values_lookup (Values_Set v k x) k' = (if k' = k then [x] else Values_lookup v k')"
proof -
  have "map_of (filter (\<lambda>(k', vs). k' \<noteq> k) v) k' = (if k' = k then None else map_of v k')"
    by (induction v) auto
  then show ?thesis
    by (auto simp: Values_lookup_def Values_Set_def Values_Del_def map_add_def
        split: option.splits)
qed

lemma lookup_add_values:
  "Values_lookup (foldl (\<lambda>h' v. Header_Add h' key v) h vals) k =
     Values_lookup h k @ (if CanonicalMIMEHeaderKey key = k then vals else [])"
  by (induction vals arbitrary: h) (auto simp: Header_Add_def lookup_append)

lemma lookup_add_all:
  "Values_lookup (add_all h upstream) k = Values_lookup h k @ upstream_values upstream k"
proof -
  have "Values_lookup (foldl (\<lambda>h (key, vals). foldl (\<lambda>h' v. Header_Add h' key v) h vals) h up) k =
      Values_lookup h k @ upstream_values up k" for up
    by (induction up arbitrary: h) (auto simp: lookup_add_values upstream_values_def)
  then show ?thesis by (simp add: add_all_def)
qed

lemma relay_headers_lookup:
  "Values_lookup (relay_headers t [] upstream) k = relayed_values t upstream k"
proof -
  let ?h2 = "Header_Set (Header_Set [] ''X-Trace-Id'' t) ''X-Content-From'' ''gemini''"
  let ?h3 = "add_all ?h2 upstream"
  have h2: "Values_lookup ?h2 k' =
      (if k' = ''X-Trace-Id'' then [t] else if k' = ''X-Content-From'' then [''gemini''] else [])"
    for k'
    by (simp add: Header_Set_def canon_names lookup_Set lookup_Nil)
  have h3: "Values_lookup ?h3 k' =
      (if k' = ''X-Trace-Id'' then [t] else if k' = ''X-Content-From'' then [''gemini''] else [])
      @ upstream_values upstream k'" for k'
    by (simp only: lookup_add_all h2)
  have get: "Header_Get ?h3 ''Content-Type'' = '''' \<longleftrightarrow>
      (case upstream_values upstream ''Content-Type'' of [] \<Rightarrow> True | v # vs \<Rightarrow> v = '''')"
    by (simp add: Header_Get_def Values_Get_def canon_names h3 split: list.splits)
  show ?thesis
  proof (cases "Header_Get ?h3 ''Content-Type'' = ''''")
    case True
    then show ?thesis
      using get h3 [of k]
      by (auto simp: relay_headers_def relayed_values_def Let_def Header_Set_def canon_names
          lookup_Set)
  next
    case False
    then show ?thesis
      using get h3 [of k]
      by (auto simp: relay_headers_def relayed_values_def Let_def)
  qed
qed

section \<open>Facts about the forwarder and the handler\<close>

lemma SendToGemini_short_key:
  assumes "getAPIKey inp w = (Inr k, w1)" and "length k < 8"
  shows "SendToGemini ext inp w =
           (Inr (Inl (case Parse (PROXY_URL @ Url inp) of
                        Inl e \<Rightarrow> CouldNotParseUrl (parse_error_text ext (PROXY_URL @ Url inp) e)
                      | Inr u \<Rightarrow> InvalidApiKey k)), w1)"
  using assms by (simp add: SendToGemini_def Let_def split: sum.splits)

lemma getAPIKey_override:
  "APIKey inp \<noteq> '''' \<Longrightarrow> getAPIKey inp w = (Inr (APIKey inp), w)"
  by (simp add: getAPIKey_def)

lemma getAPIKey_selected:
  assumes "APIKey inp = ''''" and "GetAPIKey (sel w) = (Inr (k, None), s')"
  shows "getAPIKey inp w = (Inr k, w\<lparr>sel := s'\<rparr>)"
  using assms by (simp add: getAPIKey_def)

lemma doStdResponse_writes:
  "rw_status (rw (doStdResponse t w resp)) =
     (case rw_status (rw w) of None \<Rightarrow> Some 200 | Some c \<Rightarrow> Some c)"
  "rw_body (rw (doStdResponse t w resp)) = rw_body (rw w) @ [Formatted (json_Marshal resp)]"
  "logs (doStdResponse t w resp) = logs w"
  "sel (doStdResponse t w resp) = sel w"
  by (simp_all add: doStdResponse_def body_call_def Let_def)

lemma doStdResponse_headers:
  "Values_lookup (rw_header (rw (doStdResponse t w resp))) k =
     (if k = ''X-Content-From'' then [''agent'']
      else if k = ''X-Trace-Id'' then [t]
      else Values_lookup (rw_header (rw w)) k)"
  by (simp add: doStdResponse_def body_call_def Let_def Header_Set_def canon_names lookup_Set)

lemma MainHandle_error:
  assumes "SendToGemini ext (build_input r) (started r w) = (Inr (Inl err), w6)"
  shows "MainHandle ext t r w =
           (None,
            doStdResponse t (log_Error w6 ''send to gemini err: %v'' [AError (Error_text err)])
              \<lparr>Code = 500, Body = ''Internal server error. details: '' @ Error_text err\<rparr>)"
  using assms by (simp add: MainHandle_def Let_def)

lemma log_keeps_rw [simp]:
  "rw (log_Info w f a) = rw w" "rw (log_Error w f a) = rw w"
  "sel (log_Info w f a) = sel w" "sel (log_Error w f a) = sel w"
  by (simp_all add: log_Info_def log_Error_def)

lemma started_keeps [simp]: "rw (started r w) = rw w" "sel (started r w) = sel w"
  by (simp_all add: started_def log_request_def Let_def)

lemma getAPIKey_keeps_rw: "rw (snd (getAPIKey inp w)) = rw w"
  by (auto simp: getAPIKey_def split: prod.splits sum.splits option.splits)

lemma SendToGemini_keeps_rw: "rw (snd (SendToGemini ext inp w)) = rw w"
proof -
  obtain res w1 where g: "getAPIKey inp w = (res, w1)" by (cases "getAPIKey inp w")
  then have w1: "rw w1 = rw w" using getAPIKey_keeps_rw [of inp w] by simp
  show ?thesis
    using g w1
    by (auto simp: SendToGemini_def Let_def split: sum.splits upstream_reply.splits)
qed

section \<open>Lemmas: URLs and query strings\<close>

subsection \<open>Escaping a query component and reading it back\<close>

lemma nibble_cases:
  assumes "0 \<le> n" "n < 16"
  shows "n \<in> {0, 1, 2, 3, 4, 5, 6, 7, 8, 9, 10, 11, 12, 13, 14, 15 :: int}"
  using assms by simp presburger

lemma hex_val_upperhex:
  assumes "0 \<le> n" "n < 16"
  shows "hex_val (upperhex n) = Some n"
  using nibble_cases [OF assms]
  by (auto simp: upperhex_def hex_val_def byte_in_def)

lemma upperhex_chars:
  assumes "0 \<le> n" "n < 16"
  shows "upperhex n \<in> set ''0123456789ABCDEF''"
  using nibble_cases [OF assms]
  by (auto simp: upperhex_def)

lemma of_char_range: "0 \<le> (of_char c :: int)" "(of_char c :: int) < 256"
proof -
  have "(of_char c :: int) = int (of_char c)" by (simp add: of_char_def)
  moreover have "(of_char c :: nat) < 256" by simp
  ultimately show "0 \<le> (of_char c :: int)" "(of_char c :: int) < 256" by simp_all
qed

lemma nibbles:
  "0 \<le> (of_char c :: int) div 16" "(of_char c :: int) div 16 < 16"
  "0 \<le> (of_char c :: int) mod 16" "(of_char c :: int) mod 16 < 16"
  using of_char_range [of c] by simp_all

lemma char_of_nibbles: "char_of ((of_char c :: int) div 16 * 16 + of_char c mod 16) = c"
  by simp

lemma unescape_escape_query:
  "unescape (escape s encodeQueryComponent) encodeQueryComponent = Inr s"
proof (induction s)
  case Nil
  then show ?case by simp
next
  case (Cons c s)
  show ?case
  proof (cases "shouldEscape c encodeQueryComponent")
    case False
    then have "c \<noteq> CHR ''%''" "c \<noteq> CHR ''+''"
      by (auto simp: shouldEscape_def is_alnum_def byte_in_def)
    then show ?thesis using False Cons.IH by simp
  next
    case True
    show ?thesis
    proof (cases "c = CHR '' ''")
      case True
      then show ?thesis using Cons.IH by (simp add: shouldEscape_def is_alnum_def byte_in_def)
    next
      case False
      have h: "hex_val (upperhex (of_char c div 16)) = Some (of_char c div 16)"
        "hex_val (upperhex (of_char c mod 16)) = Some (of_char c mod 16)"
        using nibbles [of c] by (simp_all add: hex_val_upperhex)
      show ?thesis
        using True False Cons.IH h char_of_nibbles [of c]
        by (simp add: ishex_def unhex_def)
    qed
  qed
qed

lemma escape_query_chars:
  "c \<in> set (escape s encodeQueryComponent) \<Longrightarrow>
     c \<noteq> CHR ''&'' \<and> c \<noteq> CHR ''='' \<and> c \<noteq> CHR '';'' \<and> c \<noteq> CHR ''#'' \<and>
     \<not> (byte_in c 0x00 0x1F \<or> c = CHR 0x7F)"
proof (induction s)
  case Nil
  then show ?case by simp
next
  case (Cons a s)
  have kinds: "\<not> shouldEscape a encodeQueryComponent \<Longrightarrow> is_alnum a \<or> a \<in> set ''-_.~''"
    by (auto simp: shouldEscape_def split: if_splits)
  have raw: "\<not> shouldEscape a encodeQueryComponent \<Longrightarrow>
      a \<noteq> CHR ''&'' \<and> a \<noteq> CHR ''='' \<and> a \<noteq> CHR '';'' \<and> a \<noteq> CHR ''#'' \<and>
      \<not> (byte_in a 0x00 0x1F \<or> a = CHR 0x7F)"
    using kinds by (auto simp: is_alnum_def byte_in_def)
  have hexd: "upperhex n \<noteq> CHR ''&'' \<and> upperhex n \<noteq> CHR ''='' \<and> upperhex n \<noteq> CHR '';'' \<and>
      upperhex n \<noteq> CHR ''#'' \<and> \<not> (byte_in (upperhex n) 0x00 0x1F \<or> upperhex n = CHR 0x7F)"
    if "0 \<le> n" "n < 16" for n
    using upperhex_chars [OF that] by (auto simp: byte_in_def)
  show ?case
    using Cons raw hexd [OF nibbles(1,2), of a] hexd [OF nibbles(3,4), of a]
    by (auto simp: byte_in_def split: if_splits)
qed


subsection \<open>Cutting and splitting\<close>

lemma Cut_found: "sep \<notin> set a \<Longrightarrow> Cut (a @ sep # b) sep = (a, b, True)"
proof -
  assume a: "sep \<notin> set a"
  have t: "takeWhile (\<lambda>c. c \<noteq> sep) (a @ sep # b) = a"
    using a by (induction a) auto
  have d: "dropWhile (\<lambda>c. c \<noteq> sep) (a @ sep # b) = sep # b"
    using a by (induction a) auto
  show ?thesis unfolding Cut_def t d by simp
qed

lemma Cut_absent: "sep \<notin> set a \<Longrightarrow> Cut a sep = (a, [], False)"
proof -
  assume a: "sep \<notin> set a"
  have t: "takeWhile (\<lambda>c. c \<noteq> sep) a = a"
    using a by (induction a) auto
  have d: "dropWhile (\<lambda>c. c \<noteq> sep) a = []"
    using a by (induction a) auto
  show ?thesis unfolding Cut_def t d by simp
qed

lemma Split_absent: "c \<notin> set p \<Longrightarrow> Split c p = [p]"
  by (induction p) auto

lemma Split_found: "c \<notin> set p \<Longrightarrow> Split c (p @ c # rest) = p # Split c rest"
  by (induction p) auto

lemma Split_join:
  assumes "ps \<noteq> []" and "\<forall>p \<in> set ps. CHR ''&'' \<notin> set p"
  shows "Split (CHR ''&'') (join_amp ps) = ps"
proof -
  have "Split (CHR ''&'') (p @ concat (map (\<lambda>q. CHR ''&'' # q) ps)) = p # ps"
    if "\<forall>p \<in> set (p # ps). CHR ''&'' \<notin> set p" for p ps
    using that
  proof (induction ps arbitrary: p)
    case Nil
    then show ?case by (simp add: Split_absent)
  next
    case (Cons q ps)
    then have "Split (CHR ''&'') (q @ concat (map (\<lambda>q. CHR ''&'' # q) ps)) = q # ps"
      by simp
    then show ?case
      using Cons.prems by (simp add: Split_found)
  qed
  then show ?thesis
    using assms by (cases ps) (simp_all add: join_amp_def)
qed

subsection \<open>Encode, read back by ParseQuery\<close>

lemma enc_pair_chars:
  "CHR ''&'' \<notin> set (enc_pair p)" "CHR '';'' \<notin> set (enc_pair p)" "enc_pair p \<noteq> []"
  using escape_query_chars [of "CHR ''&''"] escape_query_chars [of "CHR '';''"]
  by (auto simp: enc_pair_def QueryEscape_def)

lemma parse_enc_pair: "parse_pair (enc_pair (k, x)) = Some (k, x)"
proof -
  have noeq: "CHR ''='' \<notin> set (QueryEscape k)"
    using escape_query_chars [of "CHR ''=''" k] by (auto simp: QueryEscape_def)
  have cut: "Cut (enc_pair (k, x)) (CHR ''='') = (QueryEscape k, QueryEscape x, True)"
    using Cut_found [OF noeq, of "QueryEscape x"] by (simp add: enc_pair_def)
  show ?thesis
    using enc_pair_chars [of "(k, x)"] cut
    by (simp add: parse_pair_def QueryUnescape_def QueryEscape_def unescape_escape_query)
qed

lemma join_amp_Nil_iff: "join_amp (map enc_pair ps) = [] \<longleftrightarrow> ps = []"
  using enc_pair_chars(3) by (cases ps) (auto simp: join_amp_def)

lemma ParseQuery_pairs:
  "ParseQuery query = foldl (\<lambda>m (k, v). Values_append m k v) [] (kept_pairs query)"
proof -
  have "foldl (\<lambda>m p. case parse_pair p of None \<Rightarrow> m | Some (k, v) \<Rightarrow> Values_append m k v) m ps =
        foldl (\<lambda>m (k, v). Values_append m k v) m (List.map_filter parse_pair ps)" for m ps
    by (induction ps arbitrary: m) (auto simp: List.map_filter_simps split: option.splits)
  then show ?thesis
    by (simp add: ParseQuery_def kept_pairs_def)
qed

lemma kept_pairs_join: "kept_pairs (join_amp (map enc_pair ps)) = ps"
proof (cases "ps = []")
  case True
  then show ?thesis by (simp add: kept_pairs_def join_amp_def List.map_filter_simps)
next
  case False
  have sp: "Split (CHR ''&'') (join_amp (map enc_pair ps)) = map enc_pair ps"
    using False enc_pair_chars(1) by (intro Split_join) auto
  have "List.map_filter parse_pair (map enc_pair ps) = ps"
    by (induction ps) (auto simp: List.map_filter_simps parse_enc_pair)
  then show ?thesis
    using False sp by (simp add: kept_pairs_def join_amp_Nil_iff)
qed

lemma lookup_fold_append:
  "Values_lookup (foldl (\<lambda>m (k, v). Values_append m k v) m ps) n =
     Values_lookup m n @ map snd (filter (\<lambda>(k, v). k = n) ps)"
  by (induction ps arbitrary: m) (auto simp: lookup_append)

lemma lookup_ParseQuery:
  "Values_lookup (ParseQuery query) n = map snd (filter (\<lambda>(k, v). k = n) (kept_pairs query))"
  by (simp add: ParseQuery_pairs lookup_fold_append lookup_Nil)

lemma Encode_pairs: "Encode v = join_amp (map enc_pair (pairs_of v))"
  by (simp add: Encode_def pairs_of_def enc_pair_def map_concat comp_def)

lemma pick_one:
  "distinct ks \<Longrightarrow>
     concat (map (\<lambda>k. if k = n then f k else []) ks) = (if n \<in> set ks then f n else [])"
  by (induction ks) auto

lemma pairs_of_lookup:
  assumes "distinct (map fst v)"
  shows "map snd (filter (\<lambda>(k, x). k = n) (pairs_of v)) = Values_lookup v n"
proof -
  let ?ks = "sort (map fst v)"
  have d: "distinct ?ks" using assms by simp
  have one: "map snd (filter (\<lambda>(k, x). k = n) (map (\<lambda>x. (k, x)) xs)) =
      (if k = n then xs else [])" for k xs
    by (induction xs) auto
  have "map snd (filter (\<lambda>(k, x). k = n) (pairs_of v)) =
      concat (map (\<lambda>k. if k = n then Values_lookup v k else []) ?ks)"
    by (simp add: pairs_of_def filter_concat map_concat comp_def one)
  also have "\<dots> = (if n \<in> set ?ks then Values_lookup v n else [])"
    using d by (rule pick_one)
  also have "\<dots> = Values_lookup v n"
  proof (cases "n \<in> set ?ks")
    case True
    then show ?thesis by simp
  next
    case False
    then have "map_of v n = None"
      by (simp add: map_of_eq_None_iff)
    then show ?thesis
      using False by (simp add: Values_lookup_def)
  qed
  finally show ?thesis .
qed

lemma Encode_roundtrip:
  assumes "distinct (map fst v)"
  shows "Values_lookup (ParseQuery (Encode v)) n = Values_lookup v n"
  by (simp add: lookup_ParseQuery Encode_pairs kept_pairs_join pairs_of_lookup [OF assms])

subsection \<open>Each name once\<close>

lemma distinct_append_values: "distinct (map fst v) \<Longrightarrow> distinct (map fst (Values_append v k x))"
proof -
  assume d: "distinct (map fst v)"
  have m: "map fst (map (\<lambda>(k', vs). if k' = k then (k', vs @ [x]) else (k', vs)) v) = map fst v"
    by (induction v) auto
  show ?thesis
  proof (cases "k \<in> fst ` set v")
    case True
    then show ?thesis by (simp only: Values_append_def if_True m d)
  next
    case False
    then show ?thesis using d by (simp add: Values_append_def)
  qed
qed

lemma distinct_ParseQuery: "distinct (map fst (ParseQuery query))"
proof -
  have "distinct (map fst m) \<Longrightarrow>
      distinct (map fst (foldl (\<lambda>m (k, v). Values_append m k v) m ps))" for m ps
    by (induction ps arbitrary: m) (auto simp: distinct_append_values)
  then show ?thesis by (simp add: ParseQuery_pairs)
qed

lemma distinct_Set: "distinct (map fst v) \<Longrightarrow> distinct (map fst (Values_Set v k x))"
  by (auto simp: Values_Set_def Values_Del_def distinct_map_filter)

lemma distinct_rebuilt: "distinct (map fst (rebuilt_query u k))"
  by (simp add: rebuilt_query_def Let_def distinct_Set Values_Del_def distinct_map_filter
      distinct_ParseQuery)

lemma rebuilt_lookup:
  "Values_lookup (rebuilt_query u k) n =
     (if n = ''key'' then [k] else Values_lookup (ParseQuery (RawQuery u)) n)"
  by (simp add: rebuilt_query_def Let_def lookup_Set lookup_Del)


lemma rebuilt_query_values:
  "Values_lookup (ParseQuery (Encode (rebuilt_query u k))) n =
     (if n = ''key'' then [k] else kept_values (RawQuery u) n)"
  using Encode_roundtrip [OF distinct_rebuilt, of u k n]
  by (simp add: rebuilt_lookup lookup_ParseQuery kept_values_def)
section \<open>Masking\<close>

text \<open>
  C9. For every secret \<open>s\<close>, the masked form is \<open><empty>\<close> when \<open>s\<close> is empty,
  \<open><too_short>\<close> when \<open>s\<close> is not empty and shorter than 8 bytes, and otherwise the first
  four bytes of \<open>s\<close>, four asterisks and the last four bytes of \<open>s\<close>. Both declarations of
  \<open>maskAPIKey\<close> agree.
\<close>

theorem maskAPIKey_cases:
  "(s = '''' \<longrightarrow> maskAPIKey s = ''<empty>'') \<and>
   (s \<noteq> '''' \<and> length s < 8 \<longrightarrow> maskAPIKey s = ''<too_short>'') \<and>
   (8 \<le> length s \<longrightarrow>
      maskAPIKey s = take 4 s @ ''****'' @ rev (take 4 (rev s)) \<and>
      length (maskAPIKey s) = 12) \<and>
   api_maskAPIKey s = maskAPIKey s"
proof -
  have last4: "rev (take 4 (rev s)) = drop (length s - 4) s"
    by (simp add: take_rev)
  show ?thesis
    unfolding maskAPIKey_def api_maskAPIKey_def last4 by auto
qed

theorem maskAPIKey_cases_witness:
  "maskAPIKey '''' = ''<empty>'' \<and>
   maskAPIKey ''abc'' = ''<too_short>'' \<and>
   maskAPIKey ''ABCDEFGH12'' = ''ABCD****GH12'' \<and>
   api_maskAPIKey ''abcd1234'' = ''abcd****1234''"
  using maskAPIKey_cases [of "''''"] maskAPIKey_cases [of "''abc''"]
    maskAPIKey_cases [of "''ABCDEFGH12''"] maskAPIKey_cases [of "''abcd1234''"]
  by simp

section \<open>Round-robin completeness\<close>

text \<open>
  C1. For every pool size \<open>N \<ge> 1\<close> and every value the cursor can hold, \<open>N + 1\<close>
  consecutive calls of \<open>GetAPIKey\<close> on a durable pool of \<open>N\<close> records (every command
  succeeding) return the records at the positions the locked section yields, and so do
  \<open>N + 1\<close> consecutive calls of \<open>getFallbackAPIKey\<close> on a fallback list of \<open>N\<close>
  credentials; the first \<open>N\<close> positions are distinct and are exactly the indices
  \<open>0 .. N - 1\<close>, and the position of call \<open>N + 1\<close> is that of the first call.
\<close>

theorem round_robin_complete:
  assumes "1 \<le> N" and "int N \<le> max_int"
    and "0 \<le> currentPos s" and "currentPos s < max_int"
  shows
    "(client s = Some r \<and> faults r = [] \<and> length (items r) = N \<longrightarrow>
        (let ps = durable_positions (currentPos s) (int N) (N + 1) in
           fst (GetAPIKey_calls (N + 1) s) = map (\<lambda>p. Inr (items r ! nat p, None)) ps \<and>
           distinct (take N ps) \<and> set (take N ps) = {0..<int N} \<and> ps ! N = ps ! 0)) \<and>
     (length (getAPIKeysFromEnv (env s)) = N \<longrightarrow>
        (let ps = fallback_positions (currentPos s) (int N) (N + 1) in
           fst (getFallbackAPIKey_calls (N + 1) s) =
             map (\<lambda>p. Inr (getAPIKeysFromEnv (env s) ! nat p)) ps \<and>
           distinct (take N ps) \<and> set (take N ps) = {0..<int N} \<and> ps ! N = ps ! 0))"
proof -
  have c: "cursor_ok (currentPos s)"
    using assms(3,4) by (simp add: cursor_ok_def)
  have N: "0 < N" "0 < int N" using assms(1) by simp_all
  let ?c = "currentPos s"
  have dur: "durable_positions ?c (int N) (N + 1) = map (\<lambda>i. (?c + 1 + int i) mod int N) [0..<N + 1]"
    using c N(2) assms(2) by (rule durable_positions_eq)
  have fb: "fallback_positions ?c (int N) (N + 1) = map (\<lambda>i. (?c + int i) mod int N) [0..<N + 1]"
    using c N(2) assms(2) by (rule fallback_positions_eq)
  have A: "client s = Some r \<and> faults r = [] \<and> length (items r) = N \<longrightarrow>
        (let ps = durable_positions (currentPos s) (int N) (N + 1) in
           fst (GetAPIKey_calls (N + 1) s) = map (\<lambda>p. Inr (items r ! nat p, None)) ps \<and>
           distinct (take N ps) \<and> set (take N ps) = {0..<int N} \<and> ps ! N = ps ! 0)"
  proof (intro impI)
    assume h: "client s = Some r \<and> faults r = [] \<and> length (items r) = N"
    then have ne: "items r \<noteq> []" using N(1) by auto
    have calls: "fst (GetAPIKey_calls (N + 1) s) =
        map (\<lambda>p. Inr (items r ! nat p, None)) (durable_positions ?c (int N) (N + 1))"
      using GetAPIKey_calls_durable [of s r "N + 1"] h ne c assms(2) by simp
    show "let ps = durable_positions (currentPos s) (int N) (N + 1) in
           fst (GetAPIKey_calls (N + 1) s) = map (\<lambda>p. Inr (items r ! nat p, None)) ps \<and>
           distinct (take N ps) \<and> set (take N ps) = {0..<int N} \<and> ps ! N = ps ! 0"
      unfolding Let_def using calls turn_properties [OF N(1) dur] by simp
  qed
  have B: "length (getAPIKeysFromEnv (env s)) = N \<longrightarrow>
        (let ps = fallback_positions (currentPos s) (int N) (N + 1) in
           fst (getFallbackAPIKey_calls (N + 1) s) =
             map (\<lambda>p. Inr (getAPIKeysFromEnv (env s) ! nat p)) ps \<and>
           distinct (take N ps) \<and> set (take N ps) = {0..<int N} \<and> ps ! N = ps ! 0)"
  proof (intro impI)
    assume h: "length (getAPIKeysFromEnv (env s)) = N"
    then have ne: "getAPIKeysFromEnv (env s) \<noteq> []" using N(1) by auto
    have calls: "fst (getFallbackAPIKey_calls (N + 1) s) =
        map (\<lambda>p. Inr (getAPIKeysFromEnv (env s) ! nat p)) (fallback_positions ?c (int N) (N + 1))"
      using getFallbackAPIKey_calls_ok [of s "getAPIKeysFromEnv (env s)" "N + 1"] h ne c assms(2)
      by simp
    show "let ps = fallback_positions (currentPos s) (int N) (N + 1) in
           fst (getFallbackAPIKey_calls (N + 1) s) =
             map (\<lambda>p. Inr (getAPIKeysFromEnv (env s) ! nat p)) ps \<and>
           distinct (take N ps) \<and> set (take N ps) = {0..<int N} \<and> ps ! N = ps ! 0"
      unfolding Let_def using calls turn_properties [OF N(1) fb] by simp
  qed
  show ?thesis using A B by blast
qed

theorem round_robin_complete_witness:
  "fst (GetAPIKey_calls 4 pool3_state) =
     [Inr (''k1-record'', None), Inr (''k2-record'', None), Inr (''k0-record'', None),
      Inr (''k1-record'', None)] \<and>
   fst (getFallbackAPIKey_calls 3 pool3_state) =
     [Inr ''f0-secret'', Inr ''f1-secret'', Inr ''f0-secret'']"
proof -
  have keys: "getAPIKeysFromEnv (env pool3_state) = [''f0-secret'', ''f1-secret'']"
    by code_simp
  have st: "client pool3_state = Some pool3" "faults pool3 = []" "length (items pool3) = 3"
    "currentPos pool3_state = 0"
    by (simp_all add: pool3_state_def pool3_def)
  have dp: "durable_positions 0 3 4 = [1, 2, 0, 1]"
    by code_simp
  have fp: "fallback_positions 0 2 3 = [0, 1, 0]"
    by code_simp
  have m: "(3::int) \<le> max_int" "(2::int) \<le> max_int" "(0::int) < max_int"
    by (simp_all add: max_int_def)
  have "fst (GetAPIKey_calls 4 pool3_state) =
      map (\<lambda>p. Inr (items pool3 ! nat p, None)) [1, 2, 0, 1]"
    using round_robin_complete [of 3 pool3_state pool3] st m dp by (simp add: Let_def)
  moreover have "fst (getFallbackAPIKey_calls 3 pool3_state) =
      map (\<lambda>p. Inr ([''f0-secret'', ''f1-secret''] ! nat p)) [0, 1, 0]"
    using round_robin_complete [of 2 pool3_state pool3] st m fp keys by (simp add: Let_def)
  ultimately show ?thesis
    by (simp add: pool3_def)
qed

section \<open>Initialization of a populated pool\<close>

text \<open>
  C8. When the durable pool already holds a record, any number of calls of
  \<open>InitializeAPIKeys\<close> (of either file), with any fallback list and whether or not a
  command fails, leave the stored records as they were.
\<close>

theorem initialize_idempotent:
  assumes "stored s \<noteq> []"
  shows "stored (((\<lambda>s. snd (InitializeAPIKeys s)) ^^ n) s) = stored s \<and>
         stored (((\<lambda>s. snd (InitializeAPIKeys_json s)) ^^ n) s) = stored s"
proof (induction n)
  case 0
  then show ?case by simp
next
  case (Suc n)
  let ?a = "((\<lambda>s. snd (InitializeAPIKeys s)) ^^ n) s"
  let ?b = "((\<lambda>s. snd (InitializeAPIKeys_json s)) ^^ n) s"
  have "stored ?a \<noteq> []" "stored ?b \<noteq> []"
    using Suc assms by simp_all
  then have "stored (snd (InitializeAPIKeys ?a)) = stored ?a"
    "stored (snd (InitializeAPIKeys_json ?b)) = stored ?b"
    by (simp_all add: Initialize_stored(1) Initialize_json_stored(1))
  then show ?case using Suc by simp
qed

theorem initialize_idempotent_witness:
  "stored (((\<lambda>s. snd (InitializeAPIKeys s)) ^^ 2) pool3_state) =
     [''k0-record'', ''k1-record'', ''k2-record''] \<and>
   stored (((\<lambda>s. snd (InitializeAPIKeys_json s)) ^^ 2) pool3_state) =
     [''k0-record'', ''k1-record'', ''k2-record'']"
proof -
  have "stored pool3_state = [''k0-record'', ''k1-record'', ''k2-record'']"
    by (simp add: stored_def pool3_state_def pool3_def)
  then show ?thesis
    using initialize_idempotent [of pool3_state 2] by simp
qed

section \<open>Which records the initialization writes\<close>

text \<open>
  C4, as claimed, fails: a record whose \<open>key\<close> member is present but empty is written.
  The fallback list here is the single record \<open>{"key":""}\<close>; it decodes to an object whose
  \<open>key\<close> is the empty string, and initialization of the empty pool stores it.
\<close>

theorem initialize_empty_key_counterexample:
  \<open>getAPIKeysFromEnv (env (empty_pool_state ''{"key":""}'')) = [''{"key":""}''] \<and>
   json_decode ''{"key":""}'' = Some (JObject [(''key'', JString '''')], False) \<and>
   stored (snd (InitializeAPIKeys_json (empty_pool_state ''{"key":""}''))) = [''{"key":""}'']\<close>
  by code_simp

text \<open>
  C4, amended. On an empty durable pool, initialization (of the second file) never writes a
  record that does not decode as a JSON object with a member named \<open>key\<close>; when no
  command fails it writes exactly the records that do, in order, whatever the value of
  \<open>key\<close> is.
\<close>

theorem initialize_writes_accepted:
  assumes "client s = Some r" and "items r = []"
  shows "set (stored (snd (InitializeAPIKeys_json s))) \<subseteq>
           {rec \<in> set (getAPIKeysFromEnv (env s)). record_accepted rec} \<and>
         (faults r = [] \<longrightarrow>
            stored (snd (InitializeAPIKeys_json s)) =
              filter record_accepted (getAPIKeysFromEnv (env s)))"
proof -
  let ?keys = "getAPIKeysFromEnv (env s)"
  let ?r1 = "snd (next_fault r)"
  have r1: "items ?r1 = []" using assms(2) by simp
  have init: "InitializeAPIKeys_json s =
      (if fst (next_fault r) then (Some RedisIOError, s\<lparr>client := Some ?r1\<rparr>)
       else if ?keys = [] then (None, s\<lparr>client := Some ?r1\<rparr>)
       else (fst (push_records ?r1 ?keys), s\<lparr>client := Some (snd (push_records ?r1 ?keys))\<rparr>))"
    using assms by (simp add: InitializeAPIKeys_json_def LLen_eq split_beta Let_def)
  obtain ws where ws: "items (snd (push_records ?r1 ?keys)) = items ?r1 @ ws"
    "set ws \<subseteq> {k \<in> set ?keys. record_accepted k}"
    using push_records_only_accepted [of ?r1 ?keys] by blast
  have sub: "set (stored (snd (InitializeAPIKeys_json s))) \<subseteq>
      {rec \<in> set ?keys. record_accepted rec}"
    using init r1 ws by (auto simp: stored_def)
  have eq: "stored (snd (InitializeAPIKeys_json s)) = filter record_accepted ?keys"
    if "faults r = []"
  proof -
    have nf: "next_fault r = (False, r)" using that by (simp add: next_fault_def)
    show ?thesis
      using init nf assms(2) push_records_clean [OF that, of ?keys]
      by (simp add: stored_def)
  qed
  show ?thesis using sub eq by blast
qed

theorem initialize_writes_accepted_witness:
  \<open>stored (snd (InitializeAPIKeys_json
      (empty_pool_state ''{"key":"abcd1234"}, AIzaSyPlain, {"proxy":"p"} ,{"key":""}''))) =
     [''{"key":"abcd1234"}'', ''{"key":""}'']\<close>
proof -
  let ?s = \<open>empty_pool_state ''{"key":"abcd1234"}, AIzaSyPlain, {"proxy":"p"} ,{"key":""}''\<close>
  have keys: \<open>getAPIKeysFromEnv (env ?s) =
      [''{"key":"abcd1234"}'', ''AIzaSyPlain'', ''{"proxy":"p"}'', ''{"key":""}'']\<close>
    by code_simp
  have acc: \<open>filter record_accepted
      [''{"key":"abcd1234"}'', ''AIzaSyPlain'', ''{"proxy":"p"}'', ''{"key":""}''] =
      [''{"key":"abcd1234"}'', ''{"key":""}'']\<close>
    by code_simp
  have st: "client ?s = Some \<lparr>items = [], faults = []\<rparr>"
    by (simp add: empty_pool_state_def)
  show ?thesis
    using initialize_writes_accepted [OF st] keys acc by simp
qed

section \<open>How far one selection call moves the cursor\<close>

text \<open>
  C3, as claimed, fails: a call whose durable fetch or decode fails has already advanced
  the cursor in the durable section and advances it again in the fallback section. With
  three durable records and three fallback credentials and the cursor at 0, one call
  leaves the cursor at 2, not at \<open>(0 + 1) mod 3\<close>.
\<close>

theorem cursor_single_advance_counterexample:
  "currentPos fetch_fails_state = 0 \<and> length (stored fetch_fails_state) = 3 \<and>
   length (getAPIKeysFromEnv (env fetch_fails_state)) = 3 \<and>
   currentPos (snd (GetAPIKey fetch_fails_state)) = 2 \<and>
   currentPos bad_record_state = 0 \<and> length (stored bad_record_state) = 3 \<and>
   length (getAPIKeysFromEnv (env bad_record_state)) = 3 \<and>
   currentPos (snd (GetAPIKey_json bad_record_state)) = 2"
  by code_simp

text \<open>
  C3, amended. Each locked section reduces the cursor modulo its own pool length before
  use and advances it by exactly 1 modulo that length. A call runs the durable section
  when the backing answers a non-zero count, and the fallback section when it does not
  return from the durable branch and the fallback list is not empty: so the cursor moves
  once in a call that returns from the durable branch or goes straight to the fallback,
  and twice (by 1 modulo the durable length, then by 1 modulo the fallback length) in a
  call whose durable fetch or decode fails.
\<close>

theorem cursor_advance_per_section:
  assumes "state_ok s"
  shows "currentPos (snd (GetAPIKey s)) =
           cursor_after s (durable_entered s) (durable_fetched s) \<and>
         currentPos (snd (GetAPIKey_json s)) =
           cursor_after s (durable_entered s) (durable_decoded s) \<and>
         (\<forall>c N. cursor_ok c \<and> 0 < N \<and> N \<le> max_int \<longrightarrow>
            durable_section c N = ((c + 1) mod N, (c + 1) mod N) \<and>
            fallback_section c N = (c mod N, (c + 1) mod N) \<and>
            0 \<le> c mod N \<and> c mod N < N \<and> cursor_ok ((c + 1) mod N))"
proof -
  have sections: "durable_section c N = ((c + 1) mod N, (c + 1) mod N) \<and>
      fallback_section c N = (c mod N, (c + 1) mod N) \<and>
      0 \<le> c mod N \<and> c mod N < N \<and> cursor_ok ((c + 1) mod N)"
    if "cursor_ok c" "0 < N" "N \<le> max_int" for c N
    using that next_cursor_ok [OF that(2,3), of "c + 1"]
    by (simp add: durable_section_def fallback_section_def next_cursor go_rem_nonneg
        cursor_ok_def Let_def)
  show ?thesis
    using GetAPIKey_result(2) [OF assms] GetAPIKey_json_result(2) [OF assms] sections
    by blast
qed

theorem cursor_advance_per_section_witness:
  "currentPos (snd (GetAPIKey pool3_state)) = 1 \<and>
   currentPos (snd (GetAPIKey fetch_fails_state)) = (0 + 1) mod 3 + 1 \<and>
   currentPos (snd (GetAPIKey_json bad_record_state)) = (0 + 1) mod 3 + 1 \<and>
   durable_section 5 3 = (0, 0) \<and> fallback_section 5 3 = (2, 0)"
proof -
  have ok: "state_ok pool3_state" "state_ok fetch_fails_state" "state_ok bad_record_state"
    by code_simp+
  have a: "cursor_after pool3_state (durable_entered pool3_state)
      (durable_fetched pool3_state) = 1"
    by code_simp
  have b: "cursor_after fetch_fails_state (durable_entered fetch_fails_state)
      (durable_fetched fetch_fails_state) = 2"
    by code_simp
  have c: "cursor_after bad_record_state (durable_entered bad_record_state)
      (durable_decoded bad_record_state) = 2"
    by code_simp
  have d: "cursor_ok 5" "(3::int) \<le> max_int"
    by (simp_all add: cursor_ok_def max_int_def)
  show ?thesis
    using cursor_advance_per_section [OF ok(1)] cursor_advance_per_section [OF ok(2)]
      cursor_advance_per_section [OF ok(3)] a b c d
    by simp
qed

section \<open>The relay of an upstream response\<close>

text \<open>
  C7, as claimed, fails: when the upstream response has no \<open>Content-Type\<close>, the relay adds
  a third header, \<open>Content-Type: application/json\<close>. Here the upstream sends the single
  header \<open>X-Up\<close>.
\<close>

theorem relay_adds_content_type_counterexample:
  "rw_header (rw (snd (doGeminiResponse ''trace-1'' (start_world pool3_state)
      \<lparr>resp_Body = ''{}'', StatusCode = 200, resp_Headers = [(''X-Up'', [''a''])]\<rparr>))) =
     [(''X-Trace-Id'', [''trace-1'']), (''X-Content-From'', [''gemini'']), (''X-Up'', [''a'']),
      (''Content-Type'', [''application/json''])]"
  by code_simp

text \<open>
  C7, amended. For every upstream response with a final status (101, or 200 to 999),
  relayed through a fresh response writer: the status written is the upstream status,
  the one body write is the upstream body, and under every header name the writer holds
  the proxy's own value (the trace identifier under \<open>X-Trace-Id\<close>, \<open>gemini\<close> under
  \<open>X-Content-From\<close>) followed by all upstream values of that name in order; only
  \<open>Content-Type\<close> is set to \<open>application/json\<close> when the upstream has none or an empty
  first value. The selector's state and the log are not touched.
\<close>

theorem relay_preserves:
  assumes "rw w = new_writer" and "final_status (StatusCode resp)"
  shows "\<exists>w'. doGeminiResponse t w resp = (None, w') \<and>
           rw_status (rw w') = Some (StatusCode resp) \<and>
           rw_body (rw w') = [Written (resp_Body resp)] \<and>
           (\<forall>k. Values_lookup (rw_header (rw w')) k = relayed_values t (resp_Headers resp) k) \<and>
           sel w' = sel w \<and> logs w' = logs w"
proof -
  let ?w1 = "(rw w)\<lparr>rw_header := relay_headers t (rw_header (rw w)) (resp_Headers resp)\<rparr>"
  have wh: "WriteHeader ?w1 (StatusCode resp) = Inr (?w1\<lparr>rw_status := Some (StatusCode resp)\<rparr>)"
    using assms by (auto simp: WriteHeader_def new_writer_def final_status_def)
  show ?thesis
    using assms(1) wh relay_headers_lookup [of t "resp_Headers resp"]
    by (simp add: doGeminiResponse_def Let_def body_call_def new_writer_def)
qed

theorem relay_preserves_witness:
  "(let w' = snd (doGeminiResponse ''trace-1'' (start_world pool3_state)
              \<lparr>resp_Body = ''not found'', StatusCode = 404,
               resp_Headers = [(''Content-Type'', [''text/plain'']), (''X-Up'', [''a'', ''b''])]\<rparr>)
    in rw_status (rw w') = Some 404 \<and> rw_body (rw w') = [Written ''not found''] \<and>
       Values_lookup (rw_header (rw w')) ''X-Up'' = [''a'', ''b''] \<and>
       Values_lookup (rw_header (rw w')) ''Content-Type'' = [''text/plain''] \<and>
       Values_lookup (rw_header (rw w')) ''X-Trace-Id'' = [''trace-1''] \<and>
       Values_lookup (rw_header (rw w')) ''X-Content-From'' = [''gemini''] \<and>
       Values_lookup (rw_header (rw w')) ''Date'' = [])"
proof -
  let ?resp = "\<lparr>resp_Body = ''not found'', StatusCode = 404,
      resp_Headers = [(''Content-Type'', [''text/plain'']), (''X-Up'', [''a'', ''b''])]\<rparr>"
  have fresh: "rw (start_world pool3_state) = new_writer"
    by (simp add: start_world_def)
  have final: "final_status (StatusCode ?resp)"
    by (simp add: final_status_def)
  have vals:
    "relayed_values ''trace-1'' (resp_Headers ?resp) ''X-Up'' = [''a'', ''b'']"
    "relayed_values ''trace-1'' (resp_Headers ?resp) ''Content-Type'' = [''text/plain'']"
    "relayed_values ''trace-1'' (resp_Headers ?resp) ''X-Trace-Id'' = [''trace-1'']"
    "relayed_values ''trace-1'' (resp_Headers ?resp) ''X-Content-From'' = [''gemini'']"
    "relayed_values ''trace-1'' (resp_Headers ?resp) ''Date'' = []"
    by code_simp+
  obtain w' where w': "doGeminiResponse ''trace-1'' (start_world pool3_state) ?resp = (None, w')"
    "rw_status (rw w') = Some (StatusCode ?resp)"
    "rw_body (rw w') = [Written (resp_Body ?resp)]"
    "\<forall>k. Values_lookup (rw_header (rw w')) k = relayed_values ''trace-1'' (resp_Headers ?resp) k"
    using relay_preserves [OF fresh final, of "''trace-1''"] by blast
  show ?thesis
    using w' vals by (simp add: Let_def)
qed

section \<open>The self-generated error response\<close>

text \<open>
  C2. The claim says the response to a forwarding failure is a JSON object with a code and
  a body, sent with HTTP status 500. The handler builds \<open>Response{Code: 500, ...}\<close> and
  writes its JSON encoding, but \<open>doStdResponse\<close> never calls \<open>WriteHeader\<close> (as
  \<open>doGeminiResponse\<close> does): for every failure of the forwarder on a fresh response writer
  the status of the response is 200, the default of the first body write, and the one
  body write is the \<open>fmt.Fprintf\<close> whose format is the JSON encoding of code 500 and the
  message.
\<close>

theorem self_response_status:
  assumes "rw w = new_writer"
    and "fst (SendToGemini ext (build_input r) (started r w)) = Inr (Inl err)"
  shows "fst (MainHandle ext t r w) = None \<and>
         rw_status (rw (snd (MainHandle ext t r w))) = Some 200 \<and>
         rw_body (rw (snd (MainHandle ext t r w))) =
           [Formatted (json_Marshal
              \<lparr>Code = 500, Body = ''Internal server error. details: '' @ Error_text err\<rparr>)]"
proof -
  obtain w6 where s: "SendToGemini ext (build_input r) (started r w) = (Inr (Inl err), w6)"
    using assms(2) by (cases "SendToGemini ext (build_input r) (started r w)") simp
  have "rw w6 = new_writer"
    using SendToGemini_keeps_rw [of ext "build_input r" "started r w"] s assms(1) by simp
  then show ?thesis
    using MainHandle_error [OF s, of t]
    by (simp add: doStdResponse_writes new_writer_def)
qed

theorem self_response_status_witness:
  \<open>(let w' = snd (MainHandle (fixed_externals (TransportError ''dial tcp: i/o timeout''))
               ''trace-1'' (get_request ''/v1/models'' ''key=short'') (start_world pool3_state))
    in rw_status (rw w') = Some 200 \<and>
       rw_body (rw w') =
         [Formatted ''{"code":500,"body":"Internal server error. details: invalid api key: short"}'']) \<and>
   (let w' = snd (MainHandle (fixed_externals (TransportError ''dial tcp: i/o timeout''))
               ''trace-1'' (get_request ''/v1/models'' ''foo=1'') (start_world pool3_state))
    in rw_status (rw w') = Some 200 \<and>
       rw_body (rw w') =
         [Formatted ''{"code":500,"body":"Internal server error. details: could not send request: dial tcp: i/o timeout"}'']) \<and>
   (let w' = snd (MainHandle (fixed_externals (Reply 200 [] (Inl ''unexpected EOF'')))
               ''trace-1'' (get_request ''/v1/models'' ''foo=1'') (start_world pool3_state))
    in rw_status (rw w') = Some 200 \<and>
       rw_body (rw w') =
         [Formatted ''{"code":500,"body":"Internal server error. details: could not read response body: unexpected EOF"}''])\<close>
proof -
  let ?down = "fixed_externals (TransportError ''dial tcp: i/o timeout'')"
  let ?cut = "fixed_externals (Reply 200 [] (Inl ''unexpected EOF''))"
  let ?r1 = "get_request ''/v1/models'' ''key=short''"
  let ?r2 = "get_request ''/v1/models'' ''foo=1''"
  let ?w = "start_world pool3_state"
  have fresh: "rw ?w = new_writer" by (simp add: start_world_def)
  have e1: "fst (SendToGemini ?down (build_input ?r1) (started ?r1 ?w)) =
      Inr (Inl (InvalidApiKey ''short''))"
    by code_simp
  have e2: "fst (SendToGemini ?down (build_input ?r2) (started ?r2 ?w)) =
      Inr (Inl (CouldNotSendRequest ''dial tcp: i/o timeout''))"
    by code_simp
  have e3: "fst (SendToGemini ?cut (build_input ?r2) (started ?r2 ?w)) =
      Inr (Inl (CouldNotReadBody ''unexpected EOF''))"
    by code_simp
  have m1: \<open>json_Marshal \<lparr>Code = 500, Body = ''Internal server error. details: '' @
        Error_text (InvalidApiKey ''short'')\<rparr> =
      ''{"code":500,"body":"Internal server error. details: invalid api key: short"}''\<close>
    by code_simp
  have m2: \<open>json_Marshal \<lparr>Code = 500, Body = ''Internal server error. details: '' @
        Error_text (CouldNotSendRequest ''dial tcp: i/o timeout'')\<rparr> =
      ''{"code":500,"body":"Internal server error. details: could not send request: dial tcp: i/o timeout"}''\<close>
    by code_simp
  have m3: \<open>json_Marshal \<lparr>Code = 500, Body = ''Internal server error. details: '' @
        Error_text (CouldNotReadBody ''unexpected EOF'')\<rparr> =
      ''{"code":500,"body":"Internal server error. details: could not read response body: unexpected EOF"}''\<close>
    by code_simp
  show ?thesis
    using self_response_status [OF fresh e1, of "''trace-1''"]
      self_response_status [OF fresh e2, of "''trace-1''"]
      self_response_status [OF fresh e3, of "''trace-1''"]
    unfolding m1 m2 m3 Let_def by simp
qed

section \<open>A credential that is too short\<close>

text \<open>
  C10. The claim says every log statement renders credentials only in masked form, and
  the log lines about a credential do go through \<open>maskAPIKey\<close>. \<open>MainHandle\<close> misses it
  for the forwarder's error, which it passes to \<open>log.Error\<close> as it is. For every request
  whose resolved credential is shorter than 8 bytes and whose target URL parses: the
  forwarder's error is \<open>invalid api key: \<close> followed by the credential, unmasked; the
  one body write of \<open>MainHandle\<close> is the \<open>fmt.Fprintf\<close> whose format is the JSON encoding
  of code 500 and \<open>Internal server error. details: \<close> followed by that text; its last
  log call is \<open>log.Error\<close> with the format \<open>send to gemini err: %v\<close> and that error,
  unmasked; and the log call about the key of the query goes through \<open>maskAPIKey\<close>.
\<close>

theorem short_credential_disclosed:
  assumes "fst (getAPIKey (build_input r) (started r w)) = Inr k"
    and "length k < 8"
    and "Parse (PROXY_URL @ Url (build_input r)) = Inr u"
  shows "fst (SendToGemini ext (build_input r) (started r w)) = Inr (Inl (InvalidApiKey k)) \<and>
         Error_text (InvalidApiKey k) = ''invalid api key: '' @ k \<and>
         rw_body (rw (snd (MainHandle ext t r w))) =
           rw_body (rw w) @
           [Formatted (json_Marshal
              \<lparr>Code = 500,
               Body = ''Internal server error. details: invalid api key: '' @ k\<rparr>)] \<and>
         last (logs (snd (MainHandle ext t r w))) =
           (LogError, ''send to gemini err: %v'', [AError (''invalid api key: '' @ k)]) \<and>
         (LogInfo, ''API Key from query: %s'', [AString (api_maskAPIKey (APIKey (build_input r)))])
           \<in> set (logs (snd (MainHandle ext t r w)))"
proof -
  obtain w1 where g: "getAPIKey (build_input r) (started r w) = (Inr k, w1)"
    using assms(1) by (cases "getAPIKey (build_input r) (started r w)") simp
  have s: "SendToGemini ext (build_input r) (started r w) = (Inr (Inl (InvalidApiKey k)), w1)"
    using SendToGemini_short_key [OF g assms(2), of ext] assms(3) by simp
  have rw1: "rw w1 = rw w"
    using getAPIKey_keeps_rw [of "build_input r" "started r w"] g by simp
  have logs1: "set (logs (started r w)) \<subseteq> set (logs w1)"
    using g by (auto simp: getAPIKey_def log_Error_def split: if_splits prod.splits sum.splits
        option.splits)
  have masked: "(LogInfo, ''API Key from query: %s'',
      [AString (api_maskAPIKey (APIKey (build_input r)))]) \<in> set (logs (started r w))"
    by (simp add: started_def log_request_def build_input_def log_Info_def Let_def)
  have msg: "Error_text (InvalidApiKey k) = ''invalid api key: '' @ k"
    by (simp add: Error_text_def)
  show ?thesis
    using MainHandle_error [OF s, of t] s rw1 logs1 masked msg
    by (auto simp: doStdResponse_writes log_Error_def)
qed

theorem short_credential_disclosed_witness:
  \<open>(let w' = snd (MainHandle (fixed_externals (TransportError ''dial tcp: i/o timeout''))
               ''trace-1'' (get_request ''/v1/models'' ''foo=1'')
               (start_world (unavailable_state ''short'')))
    in rw_body (rw w') =
         [Formatted ''{"code":500,"body":"Internal server error. details: invalid api key: short"}''] \<and>
       last (logs w') = (LogError, ''send to gemini err: %v'', [AError ''invalid api key: short'']) \<and>
       (LogInfo, ''API Key from query: %s'', [AString ''<empty>'']) \<in> set (logs w'))\<close>
proof -
  let ?ext = "fixed_externals (TransportError ''dial tcp: i/o timeout'')"
  let ?r = "get_request ''/v1/models'' ''foo=1''"
  let ?w = "start_world (unavailable_state ''short'')"
  have k: "fst (getAPIKey (build_input ?r) (started ?r ?w)) = Inr ''short''"
    by code_simp
  have len: "length ''short'' < 8" by simp
  obtain u where u: "Parse (PROXY_URL @ Url (build_input ?r)) = Inr u"
  proof -
    have "(case Parse (PROXY_URL @ Url (build_input ?r)) of Inl e \<Rightarrow> False | Inr u \<Rightarrow> True)"
      by code_simp
    then show ?thesis using that by (auto split: sum.splits)
  qed
  have m: \<open>json_Marshal \<lparr>Code = 500,
        Body = ''Internal server error. details: invalid api key: '' @ ''short''\<rparr> =
      ''{"code":500,"body":"Internal server error. details: invalid api key: short"}''\<close>
    by code_simp
  have mask: "api_maskAPIKey (APIKey (build_input ?r)) = ''<empty>''"
    by code_simp
  have w0: "rw_body (rw ?w) = []"
    by (simp add: start_world_def new_writer_def)
  show ?thesis
    using short_credential_disclosed [OF k len u, of ?ext "''trace-1''"]
    unfolding m mask w0 Let_def by simp
qed

section \<open>The selector never fails\<close>

text \<open>
  C5, as claimed, fails in its last part when the target does not parse. With nothing
  stored and no fallback credential the selector returns the empty credential, but for
  the request path \<open>/v1/%zz\<close> (what \<open>r.URL.Path\<close> holds for the inbound \<open>/v1/%25zz\<close>)
  the forwarder returns the error of \<open>url.Parse\<close>, which it checks before the length of
  the credential: the empty credential is not rejected as invalid.
\<close>

theorem empty_credential_parse_error_counterexample:
  "fst (GetAPIKey (empty_pool_state '''')) = Inr ('''', None) \<and>
   Parse (PROXY_URL @ Url (build_input (get_request ''/v1/%zz'' ''''))) =
     Inl (EscapeError ''%zz'') \<and>
   fst (SendToGemini (fixed_externals (TransportError ''dial tcp: i/o timeout''))
          (build_input (get_request ''/v1/%zz'' ''''))
          (start_world (empty_pool_state ''''))) =
     Inr (Inl (CouldNotParseUrl ''parse error''))"
  by code_simp

text \<open>
  C5, amended. In every state (with the cursor in the range it can have) \<open>GetAPIKey\<close> of
  either file returns, with the error \<open>nil\<close>; when it does not return from the durable
  branch (no backing, a failed count, an empty list, a failed fetch or, in the second
  file, a failed decode) the credential is the fallback's; with nothing stored and an
  empty fallback list the credential is the empty string, and the forwarder, given no
  credential of its own, then returns an error: the invalid-credential error when the
  target URL parses, and the error of \<open>url.Parse\<close>, which is checked first, when it does
  not.
\<close>

theorem selector_never_fails:
  assumes "state_ok s"
  shows "(\<exists>k. fst (GetAPIKey s) = Inr (k, None)) \<and>
         (\<exists>k p. fst (GetAPIKey_json s) = Inr (k, p, None)) \<and>
         (\<not> durable_fetched s \<longrightarrow>
            fst (GetAPIKey s) = Inr (fallback_key s (durable_entered s), None)) \<and>
         (\<not> durable_decoded s \<longrightarrow>
            fst (GetAPIKey_json s) = Inr (fallback_key s (durable_entered s), '''', None)) \<and>
         (stored s = [] \<and> getAPIKeysFromEnv (env s) = [] \<longrightarrow>
            fst (GetAPIKey s) = Inr ('''', None) \<and>
            fst (GetAPIKey_json s) = Inr ('''', '''', None) \<and>
            (\<forall>ext inp w. sel w = s \<and> APIKey inp = '''' \<longrightarrow>
               fst (SendToGemini ext inp w) =
                 Inr (Inl (case Parse (PROXY_URL @ Url inp) of
                             Inl e \<Rightarrow> CouldNotParseUrl
                                        (parse_error_text ext (PROXY_URL @ Url inp) e)
                           | Inr u \<Rightarrow> InvalidApiKey ''''))))"
proof -
  note r = GetAPIKey_result(1) [OF assms]
  obtain k p where j: "fst (GetAPIKey_json s) = Inr (k, p, None)"
    "\<not> durable_decoded s \<longrightarrow> k = fallback_key s (durable_entered s) \<and> p = ''''"
    using GetAPIKey_json_result(1) [OF assms] by blast
  have empty: "fst (GetAPIKey s) = Inr ('''', None) \<and>
      fst (GetAPIKey_json s) = Inr ('''', '''', None) \<and>
      (\<forall>ext inp w. sel w = s \<and> APIKey inp = '''' \<longrightarrow>
         fst (SendToGemini ext inp w) =
           Inr (Inl (case Parse (PROXY_URL @ Url inp) of
                       Inl e \<Rightarrow> CouldNotParseUrl (parse_error_text ext (PROXY_URL @ Url inp) e)
                     | Inr u \<Rightarrow> InvalidApiKey '''')))"
    if e: "stored s = []" "getAPIKeysFromEnv (env s) = []"
  proof -
    have no: "\<not> durable_entered s" "\<not> durable_fetched s" "\<not> durable_decoded s"
      using e by (simp_all add: durable_entered_def durable_fetched_def durable_decoded_def)
    have fk: "fallback_key s False = ''''"
      using e by (simp add: fallback_key_def)
    have g: "fst (GetAPIKey s) = Inr ('''', None)"
      using r no fk by simp
    have gj: "fst (GetAPIKey_json s) = Inr ('''', '''', None)"
      using j no fk by simp
    have fwd: "fst (SendToGemini ext inp w) =
           Inr (Inl (case Parse (PROXY_URL @ Url inp) of
                       Inl e \<Rightarrow> CouldNotParseUrl (parse_error_text ext (PROXY_URL @ Url inp) e)
                     | Inr u \<Rightarrow> InvalidApiKey ''''))"
      if h: "sel w = s" "APIKey inp = ''''" for ext inp w
    proof -
      obtain s' where "GetAPIKey (sel w) = (Inr ('''', None), s')"
        using g h(1) by (cases "GetAPIKey (sel w)") simp
      then have "getAPIKey inp w = (Inr '''', w\<lparr>sel := s'\<rparr>)"
        using h(2) by (simp add: getAPIKey_selected)
      then show ?thesis
        using SendToGemini_short_key [of inp w "''''" "w\<lparr>sel := s'\<rparr>" ext] by simp
    qed
    show ?thesis using g gj fwd by blast
  qed
  show ?thesis
    using r j empty by auto
qed

theorem selector_never_fails_witness:
  "fst (GetAPIKey fetch_fails_state) = Inr (''f1-secret'', None) \<and>
   fst (GetAPIKey_json bad_record_state) = Inr (''f1-secret'', '''', None) \<and>
   fst (GetAPIKey (empty_pool_state '''')) = Inr ('''', None) \<and>
   fst (SendToGemini (fixed_externals (TransportError ''dial tcp: i/o timeout''))
          (build_input (get_request ''/v1/models'' ''foo=1''))
          (start_world (empty_pool_state ''''))) = Inr (Inl (InvalidApiKey ''''))"
proof -
  have ok: "state_ok fetch_fails_state" "state_ok bad_record_state"
    "state_ok (empty_pool_state '''')"
    by code_simp+
  have nf: "\<not> durable_fetched fetch_fails_state" "\<not> durable_decoded bad_record_state"
    by code_simp+
  have fk: "fallback_key fetch_fails_state (durable_entered fetch_fails_state) = ''f1-secret''"
    "fallback_key bad_record_state (durable_entered bad_record_state) = ''f1-secret''"
    by code_simp+
  have e: "stored (empty_pool_state '''') = []"
    "getAPIKeysFromEnv (env (empty_pool_state '''')) = []"
    by code_simp+
  have i1: "sel (start_world (empty_pool_state '''')) = empty_pool_state ''''"
    by (simp add: start_world_def)
  have i2: "APIKey (build_input (get_request ''/v1/models'' ''foo=1'')) = ''''"
    by code_simp
  have p: "(case Parse (PROXY_URL @ Url (build_input (get_request ''/v1/models'' ''foo=1''))) of
      Inl e \<Rightarrow> CouldNotParseUrl (parse_error_text
        (fixed_externals (TransportError ''dial tcp: i/o timeout''))
        (PROXY_URL @ Url (build_input (get_request ''/v1/models'' ''foo=1''))) e)
    | Inr u \<Rightarrow> InvalidApiKey '''') = InvalidApiKey ''''"
    by code_simp
  show ?thesis
    using selector_never_fails [OF ok(1)] selector_never_fails [OF ok(2)]
      selector_never_fails [OF ok(3)] nf fk e i1 i2 p
    by simp
qed

section \<open>The rebuilt upstream URL\<close>

text \<open>
  C6. The claim says the upstream URL keeps every query parameter but \<open>key\<close>, and the
  comment above \<open>parse.Query()\<close> in \<open>SendToGemini\<close> says the same (to keep the original
  query parameters and add the key). \<open>URL.Query\<close> discards the error of \<open>ParseQuery\<close>,
  so a pair it rejects is lost without a word. In general the re-encoded query, read
  back, gives the name \<open>key\<close> exactly the credential and every other name the values of
  the pairs of the raw query that \<open>parseQuery\<close> keeps. For the input
  \<open>/v1/foo?key=leaked&x=1;y=2\<close> with the credential \<open>abcd1234\<close> the pair named \<open>x\<close> holds
  a semicolon and is not kept: the forwarder logs and requests
  \<open>https://generativelanguage.googleapis.com/v1/foo?key=abcd1234\<close>, with no parameter
  \<open>x\<close>. For the claim's own input \<open>/v1/foo?key=leaked&x=1\<close> the request has the query
  \<open>key=abcd1234&x=1\<close>.
\<close>

theorem upstream_url_drops_parameter:
  "Values_lookup (ParseQuery (Encode (rebuilt_query u k))) n =
     (if n = ''key'' then [k] else kept_values (RawQuery u) n) \<and>
   kept_values ''key=leaked&x=1;y=2'' ''x'' = [] \<and>
   map rq_URL (sent (snd (SendToGemini ext
       (forward_input ''/v1/foo?key=leaked&x=1;y=2'' ''abcd1234'') w))) =
     map rq_URL (sent w) @ [upstream_URL ''/v1/foo'' ''key=abcd1234''] \<and>
   URL_String (upstream_URL ''/v1/foo'' ''key=abcd1234'') =
     ''https://generativelanguage.googleapis.com/v1/foo?key=abcd1234'' \<and>
   (LogInfo, ''Final request URL: %s'',
     [AString ''https://generativelanguage.googleapis.com/v1/foo?key=abcd1234''])
     \<in> set (logs (snd (SendToGemini ext
       (forward_input ''/v1/foo?key=leaked&x=1;y=2'' ''abcd1234'') w))) \<and>
   map rq_URL (sent (snd (SendToGemini ext
       (forward_input ''/v1/foo?key=leaked&x=1'' ''abcd1234'') w))) =
     map rq_URL (sent w) @ [upstream_URL ''/v1/foo'' ''key=abcd1234&x=1'']"
proof -
  let ?bad = "forward_input ''/v1/foo?key=leaked&x=1;y=2'' ''abcd1234''"
  let ?good = "forward_input ''/v1/foo?key=leaked&x=1'' ''abcd1234''"
  let ?out = "''https://generativelanguage.googleapis.com/v1/foo?key=abcd1234''"
  let ?out' = "''https://generativelanguage.googleapis.com/v1/foo?key=abcd1234&x=1''"
  have kv: "kept_values ''key=leaked&x=1;y=2'' ''x'' = []"
    by code_simp
  have str: "URL_String (upstream_URL ''/v1/foo'' ''key=abcd1234'') = ?out"
    by code_simp
  have key: "getAPIKey ?bad w = (Inr ''abcd1234'', w)" "getAPIKey ?good w = (Inr ''abcd1234'', w)"
    by (simp_all add: getAPIKey_override forward_input_def)
  have p1: "Parse (PROXY_URL @ Url ?bad) = Inr (upstream_URL ''/v1/foo'' ''key=leaked&x=1;y=2'')"
    "Parse (PROXY_URL @ Url ?good) = Inr (upstream_URL ''/v1/foo'' ''key=leaked&x=1'')"
    by code_simp+
  have r1: "rebuilt_url (upstream_URL ''/v1/foo'' ''key=leaked&x=1;y=2'') ''abcd1234'' = ?out"
    "rebuilt_url (upstream_URL ''/v1/foo'' ''key=leaked&x=1'') ''abcd1234'' = ?out'"
    by code_simp+
  have tok: "isToken ''GET''"
    by code_simp
  have p2: "Parse ?out = Inr (upstream_URL ''/v1/foo'' ''key=abcd1234'')"
    "Parse ?out' = Inr (upstream_URL ''/v1/foo'' ''key=abcd1234&x=1'')"
    by code_simp+
  have port: "removeEmptyPort ''generativelanguage.googleapis.com'' =
      ''generativelanguage.googleapis.com''"
    by code_simp
  have host: "u\<lparr>Host := Host u\<rparr> = u" for u :: URL
    by simp
  have n1: "NewRequest ext (Method ?bad) ?out (Payload ?bad) =
      Inr \<lparr>rq_Method = ''GET'', rq_URL = upstream_URL ''/v1/foo'' ''key=abcd1234'',
           rq_Header = [], rq_Body = ''''\<rparr>"
    using tok port
    by (simp add: NewRequest_def p2 forward_input_def) (simp add: upstream_URL_def)
  have n2: "NewRequest ext (Method ?good) ?out' (Payload ?good) =
      Inr \<lparr>rq_Method = ''GET'', rq_URL = upstream_URL ''/v1/foo'' ''key=abcd1234&x=1'',
           rq_Header = [], rq_Body = ''''\<rparr>"
    using tok port
    by (simp add: NewRequest_def p2 forward_input_def) (simp add: upstream_URL_def)
  have s1: "map rq_URL (sent (snd (SendToGemini ext ?bad w))) =
      map rq_URL (sent w) @ [upstream_URL ''/v1/foo'' ''key=abcd1234'']"
    by (simp add: SendToGemini_def key p1 r1 n1 Let_def log_Info_def log_Error_def
        split: upstream_reply.splits sum.splits)
  have l1: "(LogInfo, ''Final request URL: %s'', [AString ?out])
      \<in> set (logs (snd (SendToGemini ext ?bad w)))"
    by (simp add: SendToGemini_def key p1 r1 n1 Let_def log_Info_def log_Error_def
        split: upstream_reply.splits sum.splits)
  have s2: "map rq_URL (sent (snd (SendToGemini ext ?good w))) =
      map rq_URL (sent w) @ [upstream_URL ''/v1/foo'' ''key=abcd1234&x=1'']"
    by (simp add: SendToGemini_def key p1 r1 n2 Let_def log_Info_def log_Error_def
        split: upstream_reply.splits sum.splits)
  show ?thesis
    using rebuilt_query_values [of u k n] kv s1 str l1 s2 by simp
qed

theorem upstream_url_drops_parameter_witness:
  "Values_lookup (ParseQuery (Encode (rebuilt_query
      (upstream_URL ''/v1/foo'' ''key=leaked&x=1;y=2'') ''abcd1234''))) ''x'' = [] \<and>
   Values_lookup (ParseQuery (Encode (rebuilt_query
      (upstream_URL ''/v1/foo'' ''key=leaked&x=1;y=2'') ''abcd1234''))) ''key'' = [''abcd1234''] \<and>
   map rq_URL (sent (snd (SendToGemini (fixed_externals (TransportError ''dial tcp: i/o timeout''))
       (forward_input ''/v1/foo?key=leaked&x=1;y=2'' ''abcd1234'') (start_world pool3_state)))) =
     [upstream_URL ''/v1/foo'' ''key=abcd1234''] \<and>
   map rq_URL (sent (snd (MainHandle (fixed_externals (TransportError ''dial tcp: i/o timeout''))
       ''trace-1'' (get_request ''/v1/foo'' ''key=abcd1234&x=1;y=2'') (start_world pool3_state)))) =
     [upstream_URL ''/v1/foo'' ''key=abcd1234'']"
proof -
  let ?ext = "fixed_externals (TransportError ''dial tcp: i/o timeout'')"
  let ?u = "upstream_URL ''/v1/foo'' ''key=leaked&x=1;y=2''"
  have none: "sent (start_world pool3_state) = []"
    by (simp add: start_world_def)
  have m: "map rq_URL (sent (snd (MainHandle ?ext ''trace-1''
      (get_request ''/v1/foo'' ''key=abcd1234&x=1;y=2'') (start_world pool3_state)))) =
     [upstream_URL ''/v1/foo'' ''key=abcd1234'']"
    by code_simp
  have raw: "RawQuery ?u = ''key=leaked&x=1;y=2''"
    by (simp add: upstream_URL_def)
  show ?thesis
    using upstream_url_drops_parameter [of ?u "''abcd1234''" "''x''" ?ext "start_world pool3_state"]
      upstream_url_drops_parameter [of ?u "''abcd1234''" "''key''" ?ext "start_world pool3_state"]
      none m raw
    by simp
qed

end
